theory Spec2Isabelle
  imports Main "HOL-Library.Word"
begin

unbundle bit_operations_syntax

section \<open>Byte-addressed memory\<close>

text \<open>
  The allocator of \<^verbatim>\<open>mm.c\<close> works on raw memory through \<^verbatim>\<open>size_t*\<close> and
  \<^verbatim>\<open>DList*\<close> accesses. Pointers and \<^verbatim>\<open>size_t\<close> are 64-bit words whose
  arithmetic wraps; memory maps every address to a byte; an 8-byte access is
  little-endian.
\<close>

type_synonym addr = "64 word"
type_synonym memory = "addr \<Rightarrow> 8 word"

definition byte_of :: "64 word \<Rightarrow> nat \<Rightarrow> 8 word" where
  "byte_of v i = ucast (drop_bit (8 * i) v)"

definition load64 :: "memory \<Rightarrow> addr \<Rightarrow> 64 word" where
  "load64 m a =
     ucast (m a) OR push_bit 8 (ucast (m (a + 1))) OR push_bit 16 (ucast (m (a + 2)))
     OR push_bit 24 (ucast (m (a + 3))) OR push_bit 32 (ucast (m (a + 4)))
     OR push_bit 40 (ucast (m (a + 5))) OR push_bit 48 (ucast (m (a + 6)))
     OR push_bit 56 (ucast (m (a + 7)))"

definition store64 :: "memory \<Rightarrow> addr \<Rightarrow> 64 word \<Rightarrow> memory" where
  "store64 m a v = (\<lambda>x. if x - a < 8 then byte_of v (unat (x - a)) else m x)"

text \<open>\<^verbatim>\<open>memset(p, c, n)\<close> and \<^verbatim>\<open>memcpy(dst, src, n)\<close> on \<open>n\<close> bytes.\<close>

definition memset :: "memory \<Rightarrow> addr \<Rightarrow> 8 word \<Rightarrow> 64 word \<Rightarrow> memory" where
  "memset m p c n = (\<lambda>x. if x - p < n then c else m x)"

definition memcpy :: "memory \<Rightarrow> addr \<Rightarrow> addr \<Rightarrow> 64 word \<Rightarrow> memory" where
  "memcpy m dst src n = (\<lambda>x. if x - dst < n then m (src + (x - dst)) else m x)"

text \<open>
  Two 8-byte words at \<open>x\<close> and \<open>a\<close> that do not overlap: each address is at least
  8 bytes above the other, modulo \<open>2^64\<close>.
\<close>

definition far :: "addr \<Rightarrow> addr \<Rightarrow> bool" where
  "far x a = (8 \<le> x - a \<and> 8 \<le> a - x)"

section \<open>Alignment\<close>

definition ALIGNMENT :: "64 word" where
  "ALIGNMENT = 16"

definition align :: "64 word \<Rightarrow> 64 word" where
  "align x = ALIGNMENT * ((x + ALIGNMENT - 1) div ALIGNMENT)"

definition aligned :: "addr \<Rightarrow> bool" where
  "aligned p = (align p = p)"

section \<open>Boundary tags\<close>

definition GET_SIZE :: "memory \<Rightarrow> addr \<Rightarrow> 64 word" where
  "GET_SIZE m p = load64 m p AND NOT 3"

definition GET_FREE_BIT :: "memory \<Rightarrow> addr \<Rightarrow> bool" where
  "GET_FREE_BIT m p = (load64 m p AND 1 \<noteq> 0)"

definition GET_PREV_BLOCK_FREE_BIT :: "memory \<Rightarrow> addr \<Rightarrow> bool" where
  "GET_PREV_BLOCK_FREE_BIT m p = (load64 m p AND push_bit 1 1 \<noteq> 0)"

definition tag_word :: "64 word \<Rightarrow> bool \<Rightarrow> bool \<Rightarrow> 64 word" where
  "tag_word payload_size is_free prev_block_free =
     payload_size OR ((if prev_block_free then 2 else 0) OR (if is_free then 1 else 0))"

definition SET_VALUE :: "memory \<Rightarrow> addr \<Rightarrow> 64 word \<Rightarrow> bool \<Rightarrow> bool \<Rightarrow> memory" where
  "SET_VALUE m p payload_size is_free prev_block_free =
     store64 m p (tag_word payload_size is_free prev_block_free)"

definition SET_FREE_BIT :: "memory \<Rightarrow> addr \<Rightarrow> bool \<Rightarrow> memory" where
  "SET_FREE_BIT m p is_free =
     SET_VALUE m p (GET_SIZE m p) is_free (GET_PREV_BLOCK_FREE_BIT m p)"

definition SET_PREV_BLOCK_FREE_BIT :: "memory \<Rightarrow> addr \<Rightarrow> bool \<Rightarrow> memory" where
  "SET_PREV_BLOCK_FREE_BIT m p prev_flag_free_bit =
     SET_VALUE m p (GET_SIZE m p) (GET_FREE_BIT m p) prev_flag_free_bit"

section \<open>Header, payload and footer\<close>

definition Header_size :: "64 word" where
  "Header_size = 8"

definition Footer_size :: "64 word" where
  "Footer_size = 8"

definition Payload_get_header :: "addr \<Rightarrow> addr" where
  "Payload_get_header payload = payload - Header_size"

definition Payload_get_size :: "memory \<Rightarrow> addr \<Rightarrow> 64 word" where
  "Payload_get_size m payload = GET_SIZE m (Payload_get_header payload)"

definition Payload_get_footer :: "memory \<Rightarrow> addr \<Rightarrow> addr" where
  "Payload_get_footer m payload = payload + Payload_get_size m payload"

definition Header_get_payload :: "addr \<Rightarrow> addr" where
  "Header_get_payload header = header + Header_size"

definition Header_get_footer :: "memory \<Rightarrow> addr \<Rightarrow> addr" where
  "Header_get_footer m header = Payload_get_footer m (Header_get_payload header)"

definition Header_get_next_header :: "memory \<Rightarrow> addr \<Rightarrow> addr" where
  "Header_get_next_header m header = Header_get_footer m header + Footer_size"

definition Footer_get_header :: "memory \<Rightarrow> addr \<Rightarrow> addr" where
  "Footer_get_header m footer = Payload_get_header (footer - GET_SIZE m footer)"

definition Header_get_prev_header :: "memory \<Rightarrow> addr \<Rightarrow> addr" where
  "Header_get_prev_header m header = Footer_get_header m (header - Footer_size)"

text \<open>\<^verbatim>\<open>sizeof(DList)\<close> is two 8-byte pointers.\<close>

definition sizeof_DList :: "64 word" where
  "sizeof_DList = 16"

definition Payload_min_size :: "64 word" where
  "Payload_min_size = align sizeof_DList"

definition Block_min_size :: "64 word" where
  "Block_min_size = Header_size + Payload_min_size + Footer_size"

text \<open>
  The request-size adjustment of \<^verbatim>\<open>allocate\<close> and \<^verbatim>\<open>extend_memory\<close>:
  \<^verbatim>\<open>size = align(size - 8); size = size > Payload_min_size() ? size : Payload_min_size();\<close>
\<close>

definition adjusted_size :: "64 word \<Rightarrow> 64 word" where
  "adjusted_size sz =
     (let size1 = align (sz - 8)
      in if size1 > Payload_min_size then size1 else Payload_min_size)"

text \<open>
  The effective payload of the specification, on unbounded naturals:
  \<open>need = max (align_up (n - 8) 16) 16\<close>, the subtraction stopping at 0.
\<close>

definition align_up :: "nat \<Rightarrow> nat \<Rightarrow> nat" where
  "align_up x a = a * ((x + a - 1) div a)"

definition need_spec :: "nat \<Rightarrow> nat" where
  "need_spec n = max (align_up (n - 8) 16) 16"

section \<open>Allocator state\<close>

text \<open>
  The globals \<^verbatim>\<open>heap\<close> and \<^verbatim>\<open>freelists[15]\<close>, the memory, and the state of
  the growth primitive: the current break and the highest break it grants.
\<close>

record heap_state =
  mem :: memory
  heap :: addr
  freelists :: "nat \<Rightarrow> addr"
  brk :: addr
  brk_max :: addr

text \<open>
  Modelled from the spec: the growth primitive \<^verbatim>\<open>mm_sbrk\<close> of \<^verbatim>\<open>memlib\<close>, which
  is not part of the source file. It grows the managed region by the given number
  of bytes and returns the address of the first newly added byte (the old break),
  or fails (\<open>None\<close>, the sentinel \<^verbatim>\<open>(void *)-1\<close>) leaving everything unchanged.
\<close>

definition mm_sbrk :: "heap_state \<Rightarrow> 64 word \<Rightarrow> (addr \<times> heap_state) option" where
  "mm_sbrk s incr =
     (if unat (brk s) + unat incr \<le> unat (brk_max s)
      then Some (brk s, s\<lparr>brk := brk s + incr\<rparr>)
      else None)"

section \<open>Doubly linked lists in the payloads\<close>

text \<open>
  A \<^verbatim>\<open>DList\<close> node at address \<open>l\<close> has its \<^verbatim>\<open>prev\<close> field at \<open>l\<close> and its
  \<^verbatim>\<open>next\<close> field at \<open>l + 8\<close>. The \<^verbatim>\<open>DList **head\<close> argument is always
  \<^verbatim>\<open>&freelists[bucket]\<close>, so it is passed as the bucket number.
\<close>

definition Header_get_list :: "addr \<Rightarrow> addr" where
  "Header_get_list header = Header_get_payload header"

definition LinkedList_insert_at_front :: "nat \<Rightarrow> addr \<Rightarrow> heap_state \<Rightarrow> heap_state" where
  "LinkedList_insert_at_front bucket l s =
     (let old_head = freelists s bucket;
          m1 = (if old_head \<noteq> 0 then store64 (mem s) old_head l else mem s);
          m2 = store64 m1 l 0;
          m3 = store64 m2 (l + 8) old_head
      in s\<lparr>mem := m3, freelists := (freelists s)(bucket := l)\<rparr>)"

definition LinkedList_remove :: "nat \<Rightarrow> addr \<Rightarrow> heap_state \<Rightarrow> heap_state" where
  "LinkedList_remove bucket l s =
     (let m0 = mem s;
          m1 = (if load64 m0 (l + 8) \<noteq> 0
                then store64 m0 (load64 m0 (l + 8)) (load64 m0 l) else m0)
      in if load64 m1 l \<noteq> 0
         then s\<lparr>mem := store64 m1 (load64 m1 l + 8) (load64 m1 (l + 8))\<rparr>
         else s\<lparr>mem := m1, freelists := (freelists s)(bucket := load64 m1 (l + 8))\<rparr>)"

section \<open>Segregated free lists\<close>

definition size_classes :: "64 word list" where
  "size_classes = [16, 32, 48, 64, 80, 96, 112, 128, 144, 160, 176, 192, 208, 224, 0]"

fun bucket_loop :: "64 word list \<Rightarrow> 64 word \<Rightarrow> nat \<Rightarrow> nat" where
  "bucket_loop [] sz i = 14"
| "bucket_loop (c # cs) sz i = (if c = sz then i else bucket_loop cs sz (Suc i))"

definition Segregated_get_bucket :: "64 word \<Rightarrow> nat" where
  "Segregated_get_bucket sz = bucket_loop size_classes sz 0"

definition Segregated_insert_header :: "addr \<Rightarrow> heap_state \<Rightarrow> heap_state" where
  "Segregated_insert_header header s =
     LinkedList_insert_at_front (Segregated_get_bucket (GET_SIZE (mem s) header))
       (Header_get_list header) s"

definition Segregated_remove_header :: "addr \<Rightarrow> heap_state \<Rightarrow> heap_state" where
  "Segregated_remove_header header s =
     LinkedList_remove (Segregated_get_bucket (GET_SIZE (mem s) header))
       (Header_get_list header) s"

text \<open>
  The first-fit walk over one list. The list lives in memory and may be cyclic,
  in which case the loop of the source never ends: the result is then \<open>None\<close>.
  A finished search returns the header found, or 0 for \<^verbatim>\<open>NULL\<close>.
\<close>

partial_function (option) find_free_block_explicit_list_firstfit ::
  "memory \<Rightarrow> addr \<Rightarrow> 64 word \<Rightarrow> addr option" where
  "find_free_block_explicit_list_firstfit m l sz =
     (if l \<noteq> 0
      then (if GET_SIZE m (Payload_get_header l) + Footer_size \<ge> sz
            then Some (Payload_get_header l)
            else find_free_block_explicit_list_firstfit m (load64 m (l + 8)) sz)
      else Some 0)"

text \<open>The loop \<^verbatim>\<open>for (i = bucket; i < 14; i++)\<close> over the exact-size lists.\<close>

function class_scan :: "(nat \<Rightarrow> addr) \<Rightarrow> nat \<Rightarrow> addr option" where
  "class_scan fl i =
     (if i < 14
      then (if fl i \<noteq> 0 then Some (Payload_get_header (fl i)) else class_scan fl (Suc i))
      else None)"
  by pat_completeness auto
termination
  by (relation "measure (\<lambda>(fl, i). 14 - i)") auto

definition search_size :: "64 word \<Rightarrow> 64 word" where
  "search_size sz =
     (let size1 = align (sz - 8)
      in if size1 \<ge> Payload_min_size then size1 else Payload_min_size)"

definition Segregated_find_free_block :: "64 word \<Rightarrow> heap_state \<Rightarrow> addr option" where
  "Segregated_find_free_block sz s =
     (case class_scan (freelists s) (Segregated_get_bucket (search_size sz)) of
        Some header \<Rightarrow> Some header
      | None \<Rightarrow> find_free_block_explicit_list_firstfit (mem s) (freelists s 14) sz)"

text \<open>
  The size class and the fit policy of the specification, on unbounded naturals. The
  class of a payload size \<open>p\<close> is \<open>p / 16 - 1\<close> for the multiples of 16 from 16 to
  224, and 14 otherwise. The search returns the head of the first non-empty list
  from the class of \<open>need\<close> up to 13; otherwise the first node of list 14, given as
  the list \<open>ls\<close> of its nodes from front to back, whose payload size plus 8 is at
  least \<open>n\<close>; otherwise no fit (\<open>0\<close>).
\<close>

definition size_class_index_spec :: "nat \<Rightarrow> nat" where
  "size_class_index_spec p =
     (if 16 \<le> p \<and> p \<le> 224 \<and> p mod 16 = 0 then p div 16 - 1 else 14)"

definition find_fit_spec :: "nat \<Rightarrow> heap_state \<Rightarrow> addr list \<Rightarrow> addr" where
  "find_fit_spec n s ls =
     (case find (\<lambda>i. freelists s i \<noteq> 0) [size_class_index_spec (need_spec n)..<14] of
        Some i \<Rightarrow> Payload_get_header (freelists s i)
      | None \<Rightarrow>
          (case find (\<lambda>l. n \<le> unat (GET_SIZE (mem s) (Payload_get_header l)) + 8) ls of
             Some l \<Rightarrow> Payload_get_header l
           | None \<Rightarrow> 0))"

section \<open>Coalescing\<close>

definition coalesce_left :: "addr \<Rightarrow> heap_state \<Rightarrow> heap_state" where
  "coalesce_left header s =
     (if \<not> GET_FREE_BIT (mem s) header then s
      else if \<not> GET_PREV_BLOCK_FREE_BIT (mem s) header then s
      else
        let prev_header = Header_get_prev_header (mem s) header;
            s1 = Segregated_remove_header header s;
            s2 = Segregated_remove_header prev_header s1;
            size2 = Header_size + GET_SIZE (mem s2) header + Footer_size;
            size1 = GET_SIZE (mem s2) prev_header + size2;
            prev_prev_free_block_bit = GET_PREV_BLOCK_FREE_BIT (mem s2) prev_header;
            m1 = SET_VALUE (mem s2) prev_header size1 True prev_prev_free_block_bit;
            prev_footer = Header_get_footer m1 prev_header;
            m2 = SET_VALUE m1 prev_footer size1 True prev_prev_free_block_bit
        in Segregated_insert_header prev_header (s2\<lparr>mem := m2\<rparr>))"

definition coalesce :: "addr \<Rightarrow> heap_state \<Rightarrow> heap_state" where
  "coalesce header s =
     (let next_header = Header_get_next_header (mem s) header;
          s1 = coalesce_left next_header s
      in coalesce_left header s1)"

section \<open>Extending the heap\<close>

definition extend_memory :: "64 word \<Rightarrow> heap_state \<Rightarrow> bool \<times> heap_state" where
  "extend_memory sz s =
     (let size1 = adjusted_size sz;
          incr = size1 + Footer_size + Header_size
      in case mm_sbrk s incr of
           None \<Rightarrow> (False, s)
         | Some (payload, s1) \<Rightarrow>
             let header = Payload_get_header payload;
                 prev_block_free = GET_PREV_BLOCK_FREE_BIT (mem s1) header;
                 m1 = SET_VALUE (mem s1) header size1 True prev_block_free;
                 footer = Header_get_footer m1 header;
                 m2 = SET_VALUE m1 footer size1 True prev_block_free;
                 next_header = Header_get_next_header m2 header;
                 m3 = SET_VALUE m2 next_header 0 False True;
                 s2 = Segregated_insert_header header (s1\<lparr>mem := m3\<rparr>)
             in (True, coalesce header s2))"

section \<open>Placement\<close>

text \<open>The body of the \<^verbatim>\<open>if\<close> of \<^verbatim>\<open>allocate\<close> that splits the block.\<close>

definition split_block :: "addr \<Rightarrow> 64 word \<Rightarrow> heap_state \<Rightarrow> heap_state" where
  "split_block header new_size s =
     (let s1 = Segregated_remove_header header s;
          old_size = GET_SIZE (mem s1) header;
          m1 = SET_VALUE (mem s1) header new_size True False;
          footer = Header_get_footer m1 header;
          m2 = SET_VALUE m1 footer new_size True False;
          s2 = Segregated_insert_header header (s1\<lparr>mem := m2\<rparr>);
          free_space = old_size - new_size;
          new_payload_size = free_space - (Header_size + Footer_size);
          new_header = Header_get_next_header (mem s2) header;
          m3 = SET_VALUE (mem s2) new_header new_payload_size True False;
          new_footer = Header_get_footer m3 new_header;
          m4 = SET_VALUE m3 new_footer new_payload_size True False
      in Segregated_insert_header new_header (s2\<lparr>mem := m4\<rparr>))"

definition allocate :: "addr \<Rightarrow> 64 word \<Rightarrow> heap_state \<Rightarrow> addr \<times> heap_state" where
  "allocate header sz s =
     (let size1 = adjusted_size sz;
          s1 = (if GET_SIZE (mem s) header - size1 \<ge> Block_min_size
                then split_block header size1 s else s);
          s2 = Segregated_remove_header header s1;
          next_header = Header_get_next_header (mem s2) header;
          m1 = SET_FREE_BIT (mem s2) header False;
          m2 = SET_PREV_BLOCK_FREE_BIT m1 next_header False;
          footer = Header_get_footer m2 header;
          m3 = SET_FREE_BIT m2 footer False
      in (Header_get_payload header, s2\<lparr>mem := m3\<rparr>))"

definition mirror_header_to_footer :: "memory \<Rightarrow> addr \<Rightarrow> memory" where
  "mirror_header_to_footer m header =
     SET_VALUE m (Header_get_footer m header) (GET_SIZE m header) (GET_FREE_BIT m header)
       (GET_PREV_BLOCK_FREE_BIT m header)"

section \<open>Entry points\<close>

text \<open>The alignment probe of \<^verbatim>\<open>mm_init\<close>: one byte at a time until the address
  returned is aligned.\<close>

function init_probe :: "heap_state \<Rightarrow> (addr \<times> heap_state) option" where
  "init_probe s =
     (case mm_sbrk s 1 of
        None \<Rightarrow> None
      | Some (start, s1) \<Rightarrow> if aligned start then Some (start, s1) else init_probe s1)"
  by pat_completeness auto
termination
proof (relation "measure (\<lambda>s. unat (brk_max s) - unat (brk s))")
  fix s :: heap_state and x2 start s1
  assume "mm_sbrk s 1 = Some x2" and "(start, s1) = x2"
  then have le: "unat (brk s) + 1 \<le> unat (brk_max s)" and s1: "s1 = s\<lparr>brk := brk s + 1\<rparr>"
    by (auto simp add: mm_sbrk_def split: if_splits)
  have "unat (brk_max s) < 2 ^ 64"
    using unsigned_less [of "brk_max s", where ?'a = nat] by simp
  with le have "unat (brk s + 1) = unat (brk s) + 1"
    by (simp add: unat_word_ariths)
  with le s1 show "(s1, s) \<in> measure (\<lambda>s. unat (brk_max s) - unat (brk s))"
    by simp
qed simp

text \<open>\<^verbatim>\<open>mm_init\<close>: \<open>None\<close> is the result \<^verbatim>\<open>false\<close>.\<close>

definition mm_init :: "heap_state \<Rightarrow> heap_state option" where
  "mm_init s =
     (case init_probe s of
        None \<Rightarrow> None
      | Some (start, s1) \<Rightarrow>
          (case mm_sbrk s1 (8 + Header_size + Footer_size + Header_size - 1) of
             None \<Rightarrow> None
           | Some (p, s2) \<Rightarrow>
               let header = start + 8;
                   m1 = SET_VALUE (mem s2) header 0 False False;
                   footer = Header_get_footer m1 header;
                   m2 = SET_VALUE m1 footer 0 False False;
                   next_header = Header_get_next_header m2 header;
                   m3 = SET_VALUE m2 next_header 0 False False
               in Some (s2\<lparr>mem := m3, heap := header, freelists := (\<lambda>i. 0)\<rparr>)))"

text \<open>
  \<^verbatim>\<open>malloc\<close> retries by recursion after each extension; \<open>None\<close> stands for a
  call that never returns, the pointer 0 for \<^verbatim>\<open>NULL\<close>.
\<close>

partial_function (option) mm_malloc :: "64 word \<Rightarrow> heap_state \<Rightarrow> (addr \<times> heap_state) option" where
  "mm_malloc sz s =
     (if sz = 0 then Some (0, s)
      else Option.bind (Segregated_find_free_block sz s) (\<lambda>header.
        if header = 0
        then (let (extended, s1) = extend_memory sz s
              in if extended then mm_malloc sz s1 else Some (0, s1))
        else Some (allocate header sz s)))"

definition mm_free :: "addr \<Rightarrow> heap_state \<Rightarrow> heap_state" where
  "mm_free ptr s =
     (let header = Payload_get_header ptr;
          m1 = SET_FREE_BIT (mem s) header True;
          m2 = mirror_header_to_footer m1 header;
          next_header = Header_get_next_header m2 header;
          m3 = SET_PREV_BLOCK_FREE_BIT m2 next_header True;
          s1 = Segregated_insert_header header (s\<lparr>mem := m3\<rparr>)
      in coalesce header s1)"

definition mm_realloc :: "addr \<Rightarrow> 64 word \<Rightarrow> heap_state \<Rightarrow> (addr \<times> heap_state) option" where
  "mm_realloc oldptr sz s =
     (if oldptr = 0 then mm_malloc sz s
      else if sz = 0 then Some (0, mm_free oldptr s)
      else
        let header = Payload_get_header oldptr;
            payload_size = GET_SIZE (mem s) header
        in if payload_size + Footer_size \<ge> sz then Some (oldptr, s)
           else (case mm_malloc sz s of
                   None \<Rightarrow> None
                 | Some (new_payload, s1) \<Rightarrow>
                     if new_payload = 0 then Some (0, s1)
                     else Some (new_payload,
                       mm_free oldptr
                         (s1\<lparr>mem := memcpy (mem s1) new_payload oldptr
                                      (payload_size + Footer_size)\<rparr>))))"

definition mm_calloc :: "64 word \<Rightarrow> 64 word \<Rightarrow> heap_state \<Rightarrow> (addr \<times> heap_state) option" where
  "mm_calloc nmemb sz s =
     (let size1 = sz * nmemb
      in case mm_malloc size1 s of
           None \<Rightarrow> None
         | Some (ptr, s1) \<Rightarrow>
             if ptr \<noteq> 0 then Some (ptr, s1\<lparr>mem := memset (mem s1) ptr 0 size1\<rparr>)
             else Some (ptr, s1))"

section \<open>The managed region\<close>





section \<open>Null-terminated lists and concrete heaps\<close>

text \<open>
  \<open>dlist m l ls\<close>: following the \<^verbatim>\<open>next\<close> fields from the node \<open>l\<close> visits exactly
  the nodes \<open>ls\<close> and then reaches \<^verbatim>\<open>NULL\<close>.
\<close>

inductive dlist :: "memory \<Rightarrow> addr \<Rightarrow> addr list \<Rightarrow> bool" where
  dlist_null: "dlist m 0 []"
| dlist_node: "l \<noteq> 0 \<Longrightarrow> dlist m (load64 m (l + 8)) ls \<Longrightarrow> dlist m l (l # ls)"

text \<open>
  Memory given by a table of 8-byte words over zeroed memory, for running the
  allocator on concrete heaps.
\<close>

definition zero_mem :: memory where
  "zero_mem = (\<lambda>_. 0)"

fun mem_of :: "(addr \<times> 64 word) list \<Rightarrow> memory" where
  "mem_of [] = zero_mem"
| "mem_of ((a, v) # al) = store64 (mem_of al) a v"

fun set_word :: "addr \<Rightarrow> 64 word \<Rightarrow> (addr \<times> 64 word) list \<Rightarrow> (addr \<times> 64 word) list" where
  "set_word a v [] = [(a, v)]"
| "set_word a v ((b, w) # al) = (if a = b then (a, v) # al else (b, w) # set_word a v al)"

fun get_word :: "(addr \<times> 64 word) list \<Rightarrow> addr \<Rightarrow> 64 word" where
  "get_word [] a = 0"
| "get_word ((b, w) # al) a = (if a = b then w else get_word al a)"

definition word_aligned :: "addr \<Rightarrow> bool" where
  "word_aligned a = (unat a mod 8 = 0)"

fun keys_aligned :: "(addr \<times> 64 word) list \<Rightarrow> bool" where
  "keys_aligned [] = True"
| "keys_aligned ((b, w) # al) = (word_aligned b \<and> keys_aligned al)"

text \<open>
  A fresh process: zeroed memory, the break at 4096, and room for 352 bytes of heap.
  \<open>heap1\<close> is the heap after \<^verbatim>\<open>mm_init\<close>; \<open>heap2\<close> after \<^verbatim>\<open>p = malloc(240)\<close>;
  \<open>heap3\<close> after \<^verbatim>\<open>free(p)\<close>; \<open>heap4\<close> and \<open>heap5\<close> after one and two
  extensions for a request of \<open>2^64 - 1\<close> bytes.
\<close>

definition fresh_heap :: heap_state where
  "fresh_heap = \<lparr>mem = mem_of [], heap = 0, freelists = (\<lambda>i. 0), brk = 4096, brk_max = 4448\<rparr>"

definition heap1 :: heap_state where
  "heap1 = \<lparr>mem = mem_of [(4104, 0), (4112, 0), (4120, 0)], heap = 4104,
     freelists = (\<lambda>i. 0), brk = 4128, brk_max = 4448\<rparr>"

definition heap2 :: heap_state where
  "heap2 = \<lparr>mem = mem_of [(4104, 0), (4112, 0), (4120, 240), (4368, 240), (4376, 0),
       (4128, 0), (4136, 0)],
     heap = 4104, freelists = (\<lambda>i. 0)(14 := 0), brk = 4384, brk_max = 4448\<rparr>"

definition heap3 :: heap_state where
  "heap3 = \<lparr>mem = mem_of [(4104, 0), (4112, 0), (4120, 241), (4368, 241), (4376, 2),
       (4128, 0), (4136, 0)],
     heap = 4104, freelists = (\<lambda>i. 0)(14 := 4128), brk = 4384, brk_max = 4448\<rparr>"

definition heap4 :: heap_state where
  "heap4 = \<lparr>mem = mem_of [(4104, 0), (4112, 0), (4120, 273), (4368, 241), (4376, 19),
       (4128, 0), (4136, 0), (4400, 273), (4408, 2), (4384, 0), (4392, 0)],
     heap = 4104, freelists = (\<lambda>i. 0)(0 := 0, 14 := 4128), brk = 4416, brk_max = 4448\<rparr>"

definition heap5 :: heap_state where
  "heap5 = \<lparr>mem = mem_of [(4104, 0), (4112, 0), (4120, 305), (4368, 241), (4376, 19),
       (4128, 0), (4136, 0), (4400, 273), (4408, 19), (4384, 0), (4392, 0),
       (4432, 305), (4440, 2), (4416, 0), (4424, 0)],
     heap = 4104, freelists = (\<lambda>i. 0)(0 := 0, 14 := 4128), brk = 4448, brk_max = 4448\<rparr>"

text \<open>
  \<open>heap6_free\<close> is \<open>heap1\<close> extended by one free block of payload 16, and
  \<open>heap6\<close> the heap after \<^verbatim>\<open>malloc(16)\<close> on \<open>heap1\<close>, which allocates that block.
\<close>

definition heap6_free :: heap_state where
  "heap6_free = \<lparr>mem = mem_of [(4104, 0), (4112, 0), (4120, 17), (4144, 17), (4152, 2),
       (4128, 0), (4136, 0)],
     heap = 4104, freelists = (\<lambda>i. 0)(0 := 4128), brk = 4160, brk_max = 4448\<rparr>"

definition heap6 :: heap_state where
  "heap6 = \<lparr>mem = mem_of [(4104, 0), (4112, 0), (4120, 16), (4144, 16), (4152, 0),
       (4128, 0), (4136, 0)],
     heap = 4104, freelists = (\<lambda>i. 0)(0 := 0), brk = 4160, brk_max = 4448\<rparr>"

text \<open>
  \<open>heap7\<close> and \<open>heap8\<close> are \<open>heap6\<close> after one and two extensions for the request
  \<open>2^64 - 8\<close>, whose increment \<open>size + 16\<close> wraps to 0: the break does not move, the
  word at 4144, inside the allocated block, becomes the footer of a block of payload
  \<open>2^64 - 16\<close>, and after the second extension the node 4160 of list 14 is its own
  successor.
\<close>

definition heap7 :: heap_state where
  "heap7 = \<lparr>mem = mem_of [(4104, 0), (4112, 0), (4120, 16), (4144, 18446744073709551601),
       (4152, 2), (4128, 0), (4136, 0), (4160, 0), (4168, 0)],
     heap = 4104, freelists = (\<lambda>i. 0)(0 := 0, 14 := 4160), brk = 4160, brk_max = 4448\<rparr>"

definition heap8 :: heap_state where
  "heap8 = \<lparr>mem = mem_of [(4104, 0), (4112, 0), (4120, 16), (4144, 18446744073709551603),
       (4152, 2), (4128, 0), (4136, 0), (4160, 0), (4168, 4160)],
     heap = 4104, freelists = (\<lambda>i. 0)(0 := 0, 14 := 4160), brk = 4160, brk_max = 4448\<rparr>"

text \<open>
  The heaps of the run \<^verbatim>\<open>mm_init(); p1 = malloc(100); p2 = malloc(56); free(p1);
  realloc(p2, 2^64 - 1);\<close>. \<open>heap9\<close> and \<open>heap10\<close> are \<open>heap1\<close> extended by a block of
  payload 96 and that block allocated to \<open>p1 = 4128\<close>; \<open>heap11\<close> and \<open>heap12\<close> add a
  block of payload 48 and allocate it to \<open>p2 = 4240\<close>; \<open>heap13\<close> is the heap after
  \<^verbatim>\<open>free(p1)\<close>. Inside \<^verbatim>\<open>realloc\<close>, \<open>heap14\<close> is the heap after \<^verbatim>\<open>malloc(2^64 - 1)\<close>
  has split the block of \<open>p1\<close> into an allocated block of payload 16 at 4128 and a
  free block of payload 64, \<open>heap15\<close> the heap after the copy of 56 bytes from \<open>p2\<close>
  to 4128, and \<open>heap16\<close> the heap after \<^verbatim>\<open>free(p2)\<close>.
\<close>

definition heap9 :: heap_state where
  "heap9 = \<lparr>mem = mem_of [(4104, 0), (4112, 0), (4120, 97), (4224, 97), (4232, 2),
       (4128, 0), (4136, 0)],
     heap = 4104, freelists = (\<lambda>i. 0)(5 := 4128), brk = 4240, brk_max = 4448\<rparr>"

definition heap10 :: heap_state where
  "heap10 = \<lparr>mem = mem_of [(4104, 0), (4112, 0), (4120, 96), (4224, 96), (4232, 0),
       (4128, 0), (4136, 0)],
     heap = 4104, freelists = (\<lambda>i. 0)(5 := 0), brk = 4240, brk_max = 4448\<rparr>"

definition heap11 :: heap_state where
  "heap11 = \<lparr>mem = mem_of [(4104, 0), (4112, 0), (4120, 96), (4224, 96), (4232, 49),
       (4128, 0), (4136, 0), (4288, 49), (4296, 2), (4240, 0), (4248, 0)],
     heap = 4104, freelists = (\<lambda>i. 0)(5 := 0, 2 := 4240), brk = 4304, brk_max = 4448\<rparr>"

definition heap12 :: heap_state where
  "heap12 = \<lparr>mem = mem_of [(4104, 0), (4112, 0), (4120, 96), (4224, 96), (4232, 48),
       (4128, 0), (4136, 0), (4288, 48), (4296, 0), (4240, 0), (4248, 0)],
     heap = 4104, freelists = (\<lambda>i. 0)(5 := 0, 2 := 0), brk = 4304, brk_max = 4448\<rparr>"

definition heap13 :: heap_state where
  "heap13 = \<lparr>mem = mem_of [(4104, 0), (4112, 0), (4120, 97), (4224, 97), (4232, 50),
       (4128, 0), (4136, 0), (4288, 48), (4296, 0), (4240, 0), (4248, 0)],
     heap = 4104, freelists = (\<lambda>i. 0)(5 := 0, 2 := 0, 5 := 4128), brk = 4304,
     brk_max = 4448\<rparr>"

definition heap14 :: heap_state where
  "heap14 = \<lparr>mem = mem_of [(4104, 0), (4112, 0), (4120, 16), (4224, 65), (4232, 50),
       (4128, 0), (4136, 0), (4288, 48), (4296, 0), (4240, 0), (4248, 0), (4144, 16),
       (4152, 65), (4160, 0), (4168, 0)],
     heap = 4104, freelists = (\<lambda>i. 0)(5 := 0, 2 := 0, 5 := 0, 0 := 4128, 3 := 4160, 0 := 0),
     brk = 4304, brk_max = 4448\<rparr>"

definition heap15 :: heap_state where
  "heap15 = \<lparr>mem = mem_of [(4104, 0), (4112, 0), (4120, 16), (4224, 65), (4232, 50),
       (4128, 0), (4136, 0), (4288, 48), (4296, 0), (4240, 0), (4248, 0), (4144, 0),
       (4152, 0), (4160, 0), (4168, 0), (4176, 48)],
     heap = 4104, freelists = (\<lambda>i. 0)(5 := 0, 2 := 0, 5 := 0, 0 := 4128, 3 := 4160, 0 := 0),
     brk = 4304, brk_max = 4448\<rparr>"

definition heap16 :: heap_state where
  "heap16 = \<lparr>mem = mem_of [(4104, 0), (4112, 0), (4120, 16), (4224, 65), (4232, 51),
       (4128, 0), (4136, 0), (4288, 51), (4296, 2), (4240, 0), (4248, 0), (4144, 0),
       (4152, 65), (4160, 0), (4168, 4160), (4176, 48)],
     heap = 4104, freelists = (\<lambda>i. 0)(5 := 0, 2 := 0, 5 := 0, 0 := 4128, 3 := 4160, 0 := 0,
       2 := 0, 14 := 0, 3 := 4160),
     brk = 4304, brk_max = 4448\<rparr>"

section \<open>Memory lemmas\<close>

lemma bytes_join:
  "ucast (byte_of v 0) OR push_bit 8 (ucast (byte_of v 1)) OR push_bit 16 (ucast (byte_of v 2))
     OR push_bit 24 (ucast (byte_of v 3)) OR push_bit 32 (ucast (byte_of v 4))
     OR push_bit 40 (ucast (byte_of v 5)) OR push_bit 48 (ucast (byte_of v 6))
     OR push_bit 56 (ucast (byte_of v 7)) = (v :: 64 word)"
proof (rule bit_word_eqI)
  fix n :: nat
  assume n: "n < LENGTH(64)"
  then have "n < 8 \<or> (8 \<le> n \<and> n < 16) \<or> (16 \<le> n \<and> n < 24) \<or> (24 \<le> n \<and> n < 32)
     \<or> (32 \<le> n \<and> n < 40) \<or> (40 \<le> n \<and> n < 48) \<or> (48 \<le> n \<and> n < 56) \<or> (56 \<le> n \<and> n < 64)"
    by simp linarith
  then show "bit (ucast (byte_of v 0) OR push_bit 8 (ucast (byte_of v 1))
     OR push_bit 16 (ucast (byte_of v 2))
     OR push_bit 24 (ucast (byte_of v 3)) OR push_bit 32 (ucast (byte_of v 4))
     OR push_bit 40 (ucast (byte_of v 5)) OR push_bit 48 (ucast (byte_of v 6))
     OR push_bit 56 (ucast (byte_of v 7)) :: 64 word) n = bit v n"
    unfolding byte_of_def
    by (elim disjE) (auto simp add: bit_simps)
qed

lemma store64_at:
  "store64 m a v a = byte_of v 0"
  "store64 m a v (a + 1) = byte_of v 1"
  "store64 m a v (a + 2) = byte_of v 2"
  "store64 m a v (a + 3) = byte_of v 3"
  "store64 m a v (a + 4) = byte_of v 4"
  "store64 m a v (a + 5) = byte_of v 5"
  "store64 m a v (a + 6) = byte_of v 6"
  "store64 m a v (a + 7) = byte_of v 7"
  by (simp_all add: store64_def)

lemma load64_store64_same: "load64 (store64 m a v) a = v"
  by (simp only: load64_def store64_at bytes_join)

lemma store64_other:
  assumes "8 \<le> x - a"
  shows "store64 m a v x = m x"
  using assms by (simp add: store64_def not_less [symmetric])

lemma far_add:
  fixes x a :: "64 word"
  assumes "8 \<le> x - a" "8 \<le> a - x" "i < 8"
  shows "8 \<le> x + i - a"
  using assms by unat_arith

lemma load64_store64_other:
  assumes "8 \<le> x - a" "8 \<le> a - x"
  shows "load64 (store64 m a v) x = load64 m x"
proof -
  have "\<And>i. i < 8 \<Longrightarrow> store64 m a v (x + i) = m (x + i)"
    using far_add [OF assms] by (simp add: store64_other)
  then show ?thesis
    using assms(1) by (simp add: load64_def store64_other)
qed

text \<open>A copy of 56 bytes is seven word stores of the words of the source.\<close>

lemma byte_of_load64_0: "byte_of (load64 m a) 0 = m a"
  unfolding byte_of_def load64_def by (rule bit_word_eqI) (auto simp add: bit_simps dest: bit_imp_le_length)

lemma byte_of_load64_1: "byte_of (load64 m a) 1 = m (a + 1)"
  unfolding byte_of_def load64_def by (rule bit_word_eqI) (auto simp add: bit_simps dest: bit_imp_le_length)

lemma byte_of_load64_2: "byte_of (load64 m a) 2 = m (a + 2)"
  unfolding byte_of_def load64_def by (rule bit_word_eqI) (auto simp add: bit_simps dest: bit_imp_le_length)

lemma byte_of_load64_3: "byte_of (load64 m a) 3 = m (a + 3)"
  unfolding byte_of_def load64_def by (rule bit_word_eqI) (auto simp add: bit_simps dest: bit_imp_le_length)

lemma byte_of_load64_4: "byte_of (load64 m a) 4 = m (a + 4)"
  unfolding byte_of_def load64_def by (rule bit_word_eqI) (auto simp add: bit_simps dest: bit_imp_le_length)

lemma byte_of_load64_5: "byte_of (load64 m a) 5 = m (a + 5)"
  unfolding byte_of_def load64_def by (rule bit_word_eqI) (auto simp add: bit_simps dest: bit_imp_le_length)

lemma byte_of_load64_6: "byte_of (load64 m a) 6 = m (a + 6)"
  unfolding byte_of_def load64_def by (rule bit_word_eqI) (auto simp add: bit_simps dest: bit_imp_le_length)

lemma byte_of_load64_7: "byte_of (load64 m a) 7 = m (a + 7)"
  unfolding byte_of_def load64_def by (rule bit_word_eqI) (auto simp add: bit_simps dest: bit_imp_le_length)

lemma byte_of_load64:
  assumes "d < 8"
  shows "byte_of (load64 m a) (unat d) = m (a + d)"
proof -
  from assms have "unat d < 8" by (simp add: word_less_nat_alt)
  then have "unat d \<in> {0, 1, 2, 3, 4, 5, 6, 7}" by auto
  then have "d \<in> {0, 1, 2, 3, 4, 5, 6, 7}"
    by (auto simp add: word_unat_eq_iff)
  then show ?thesis
    using byte_of_load64_1 [of m a]
    by (auto simp add: byte_of_load64_0 byte_of_load64_2 byte_of_load64_3
        byte_of_load64_4 byte_of_load64_5 byte_of_load64_6 byte_of_load64_7)
qed

lemma store64_load64:
  "store64 M d (load64 m s) = (\<lambda>x. if x - d < 8 then m (s + (x - d)) else M x)"
  by (rule ext) (simp add: store64_def byte_of_load64)

lemma memcpy_0: "memcpy m dst src 0 = m"
  by (rule ext) (simp add: memcpy_def)

lemma memcpy_step:
  assumes "unat n + 8 < 2 ^ 64"
  shows "memcpy m dst src (n + 8) = store64 (memcpy m dst src n) (dst + n) (load64 m (src + n))"
proof (rule ext)
  fix x
  define y where "y = x - dst"
  have un: "unat (n + 8) = unat n + 8"
    using assms by (simp add: unat_word_ariths)
  have e: "x - (dst + n) = y - n" by (simp add: y_def)
  have ylt: "unat y < 2 ^ 64"
    using unsigned_less [of y, where ?'a = nat] by simp
  consider "y < n" | "n \<le> y" "y < n + 8" | "n + 8 \<le> y"
    by (metis not_le)
  then show "memcpy m dst src (n + 8) x
      = store64 (memcpy m dst src n) (dst + n) (load64 m (src + n)) x"
  proof cases
    case 1
    then have "unat (y - n) = 2 ^ 64 + unat y - unat n"
      by (simp add: unat_sub_if_size word_less_nat_alt word_size)
    then have "\<not> y - n < 8" using 1 assms by (simp add: word_less_nat_alt)
    moreover have "y < n + 8" using 1 un by (simp add: word_less_nat_alt)
    ultimately show ?thesis
      using 1 by (simp add: store64_load64 memcpy_def e y_def [symmetric])
  next
    case 2
    then have "unat (y - n) = unat y - unat n"
      by (simp add: unat_sub)
    then have "y - n < 8" using 2 un by (simp add: word_less_nat_alt word_le_nat_alt)
    then show ?thesis
      using 2 by (simp add: store64_load64 memcpy_def e y_def [symmetric] add.assoc)
  next
    case 3
    then have n: "n \<le> y" using un by (simp add: word_le_nat_alt)
    then have "unat (y - n) = unat y - unat n"
      by (simp add: unat_sub)
    then have "\<not> y - n < 8" using 3 un by (simp add: word_less_nat_alt word_le_nat_alt)
    moreover have "\<not> y < n + 8" "\<not> y < n" using 3 n by simp_all
    ultimately show ?thesis
      by (simp add: store64_load64 memcpy_def e y_def [symmetric])
  qed
qed

lemma memcpy_56:
  "memcpy m dst src 56 =
     store64 (store64 (store64 (store64 (store64 (store64 (store64 m
       dst (load64 m src))
       (dst + 8) (load64 m (src + 8)))
       (dst + 16) (load64 m (src + 16)))
       (dst + 24) (load64 m (src + 24)))
       (dst + 32) (load64 m (src + 32)))
       (dst + 40) (load64 m (src + 40)))
       (dst + 48) (load64 m (src + 48))"
  using memcpy_step [of 0 m dst src] memcpy_step [of 8 m dst src] memcpy_step [of 16 m dst src]
    memcpy_step [of 24 m dst src] memcpy_step [of 32 m dst src] memcpy_step [of 40 m dst src]
    memcpy_step [of 48 m dst src]
  by (simp add: memcpy_0)

section \<open>Request sizing\<close>

lemma align_16: "align x = 16 * ((x + 15) div 16)"
  by (simp add: align_def ALIGNMENT_def add.commute)

lemma Payload_min_size_eq: "Payload_min_size = 16"
  by (simp add: Payload_min_size_def sizeof_DList_def align_16)

lemma Block_min_size_eq: "Block_min_size = 32"
  by (simp add: Block_min_size_def Payload_min_size_eq Header_size_def Footer_size_def)

lemma unat_align:
  assumes "unat x \<le> 2 ^ 64 - 16"
  shows "unat (align x) = align_up (unat x) 16"
proof -
  have a: "unat (x + 15) = unat x + 15"
    using assms by (simp add: unat_word_ariths)
  have b: "unat ((x + 15) div 16) = (unat x + 15) div 16"
    by (simp add: unat_div a)
  have "16 * ((unat x + 15) div 16) < 2 ^ 64"
    using assms by simp
  then have "unat (16 * ((x + 15) div 16)) = 16 * ((unat x + 15) div 16)"
    by (simp add: unat_word_ariths b)
  then show ?thesis
    by (simp add: align_16 align_up_def)
qed

lemma align_small:
  assumes "n < 8"
  shows "align (n - 8) = 0"
proof -
  have "unat (n + 7) < 16" using assms by unat_arith
  then have "unat ((n + 7) div 16) = 0" by (simp add: unat_div)
  then have "(n + 7) div 16 = 0" by (simp add: unat_eq_0)
  moreover have "n - 8 + 15 = n + 7" by simp
  ultimately show ?thesis by (simp add: align_16 add.commute)
qed

lemma search_size_eq: "search_size n = adjusted_size n"
  by (auto simp add: search_size_def adjusted_size_def Let_def)

lemma adjusted_size_max:
  "unat (adjusted_size n) = max (unat (align (n - 8))) 16"
  by (simp add: adjusted_size_def Payload_min_size_eq Let_def word_less_nat_alt max_def)

text \<open>
  Below the overflow of \<^verbatim>\<open>align\<close> the wrapping computation of the code is the
  saturating formula of the specification, the requests 1..7 included.
\<close>

lemma adjusted_size_in_range:
  assumes "1 \<le> unat n" "unat n \<le> 2 ^ 64 - 8"
  shows "unat (adjusted_size n) = need_spec (unat n)"
proof (cases "n < 8")
  case True
  then have "unat n < 8" by (simp add: word_less_nat_alt)
  then show ?thesis
    using True by (simp add: adjusted_size_max align_small need_spec_def align_up_def)
next
  case False
  then have le: "8 \<le> n" by simp
  then have "unat (n - 8) = unat n - 8" by (simp add: unat_sub)
  moreover from this have "unat (n - 8) \<le> 2 ^ 64 - 16" using assms by simp
  ultimately show ?thesis
    by (simp add: adjusted_size_max unat_align need_spec_def)
qed

text \<open>
  Claim C3. For every request \<open>n \<ge> 1\<close> the effective payload size computed by the
  allocation path is \<open>max (align_up (n - 8) 16) 16\<close> with saturating subtraction.
  At the request \<open>2^64 - 1\<close> the rounding inside \<^verbatim>\<open>align\<close> wraps: the code
  computes the payload 16 (in \<^verbatim>\<open>allocate\<close>, \<^verbatim>\<open>extend_memory\<close> and the search),
  where the formula asks for \<open>2^64\<close> bytes.
\<close>

theorem adjusted_size_wraps_at_max:
  "adjusted_size 18446744073709551615 = 16
   \<and> search_size 18446744073709551615 = 16
   \<and> need_spec (unat (18446744073709551615 :: 64 word)) = 18446744073709551616"
  by (simp add: search_size_eq adjusted_size_def align_16 Payload_min_size_eq
      need_spec_def align_up_def)

section \<open>Running the allocator on concrete heaps\<close>

lemma load64_zero: "load64 zero_mem a = 0"
  by (simp add: load64_def zero_mem_def)

lemma store64_overwrite: "store64 (store64 m a v) a w = store64 m a w"
  by (rule ext) (simp add: store64_def)

lemma disjoint_bytes:
  fixes x a b :: "64 word"
  assumes "8 \<le> a - b" "8 \<le> b - a" "x - a < 8"
  shows "\<not> x - b < 8"
  using assms by unat_arith

lemma store64_swap:
  assumes "8 \<le> a - b" "8 \<le> b - a"
  shows "store64 (store64 m a v) b w = store64 (store64 m b w) a v"
proof (rule ext)
  fix x
  show "store64 (store64 m a v) b w x = store64 (store64 m b w) a v x"
    using disjoint_bytes [OF assms, of x] by (auto simp add: store64_def)
qed

lemma aligned_far:
  assumes "word_aligned a" "word_aligned b" "a \<noteq> b"
  shows "8 \<le> a - b"
proof -
  obtain k where k: "unat a = 8 * k"
    using assms(1) by (auto simp add: word_aligned_def)
  obtain l where l: "unat b = 8 * l"
    using assms(2) by (auto simp add: word_aligned_def)
  have kl: "k \<noteq> l"
    using assms(3) k l by (auto simp add: word_unat_eq_iff)
  have "unat b < 2 ^ 64"
    using unsigned_less [of b, where ?'a = nat] by simp
  then have lb: "8 * l + 8 \<le> 2 ^ 64"
    using l by simp
  have "8 \<le> unat (a - b)"
    using kl lb unfolding unat_sub_if_size word_size k l by (simp; linarith)
  then show ?thesis
    by (simp add: word_le_nat_alt)
qed

lemma store64_mem_of:
  assumes "word_aligned a" "keys_aligned al"
  shows "store64 (mem_of al) a v = mem_of (set_word a v al)"
  using assms(2)
proof (induction al)
  case Nil
  show ?case by simp
next
  case (Cons bw al)
  obtain b w where bw: "bw = (b, w)" by (cases bw)
  show ?case
  proof (cases "a = b")
    case True
    then show ?thesis by (simp add: bw store64_overwrite)
  next
    case False
    with Cons.prems assms(1) have "8 \<le> a - b" "8 \<le> b - a"
      by (auto simp add: bw intro: aligned_far)
    then have "store64 (store64 (mem_of al) b w) a v = store64 (store64 (mem_of al) a v) b w"
      by (simp add: store64_swap)
    with Cons False show ?thesis by (simp add: bw)
  qed
qed

lemma load64_mem_of:
  assumes "word_aligned a" "keys_aligned al"
  shows "load64 (mem_of al) a = get_word al a"
  using assms(2)
proof (induction al)
  case Nil
  show ?case by (simp add: load64_zero)
next
  case (Cons bw al)
  obtain b w where bw: "bw = (b, w)" by (cases bw)
  show ?case
  proof (cases "a = b")
    case True
    then show ?thesis by (simp add: bw load64_store64_same)
  next
    case False
    with Cons.prems assms(1) have "8 \<le> a - b" "8 \<le> b - a"
      by (auto simp add: bw intro: aligned_far)
    with Cons False show ?thesis by (simp add: bw load64_store64_other)
  qed
qed

declare mem_of.simps [simp del]

lemma Segregated_get_bucket_eq:
  "Segregated_get_bucket sz =
     (if sz = 16 then 0 else if sz = 32 then 1 else if sz = 48 then 2 else if sz = 64 then 3
      else if sz = 80 then 4 else if sz = 96 then 5 else if sz = 112 then 6
      else if sz = 128 then 7 else if sz = 144 then 8 else if sz = 160 then 9
      else if sz = 176 then 10 else if sz = 192 then 11 else if sz = 208 then 12
      else if sz = 224 then 13 else 14)"
  by (simp add: Segregated_get_bucket_def size_classes_def)

lemmas nav_defs = Payload_get_header_def Payload_get_size_def Payload_get_footer_def
  Header_get_payload_def Header_get_footer_def Header_get_next_header_def
  Footer_get_header_def Header_get_prev_header_def Header_size_def Footer_size_def
  Header_get_list_def

lemmas tag_defs = GET_SIZE_def GET_FREE_BIT_def GET_PREV_BLOCK_FREE_BIT_def SET_VALUE_def
  SET_FREE_BIT_def SET_PREV_BLOCK_FREE_BIT_def tag_word_def

text \<open>\<^verbatim>\<open>extend_memory\<close> with the test of the growth primitive written as a conditional.\<close>

lemma extend_memory_eq:
  "extend_memory sz s =
     (if unat (brk s) + unat (adjusted_size sz + Footer_size + Header_size) \<le> unat (brk_max s)
      then
        let size1 = adjusted_size sz;
            s1 = s\<lparr>brk := brk s + (size1 + Footer_size + Header_size)\<rparr>;
            header = Payload_get_header (brk s);
            prev_block_free = GET_PREV_BLOCK_FREE_BIT (mem s1) header;
            m1 = SET_VALUE (mem s1) header size1 True prev_block_free;
            footer = Header_get_footer m1 header;
            m2 = SET_VALUE m1 footer size1 True prev_block_free;
            next_header = Header_get_next_header m2 header;
            m3 = SET_VALUE m2 next_header 0 False True;
            s2 = Segregated_insert_header header (s1\<lparr>mem := m3\<rparr>)
        in (True, coalesce header s2)
      else (False, s))"
  by (simp add: extend_memory_def mm_sbrk_def Let_def)

lemmas eval_defs = mm_sbrk_def aligned_def align_16 nav_defs tag_defs
  store64_mem_of load64_mem_of word_aligned_def Let_def
  adjusted_size_def search_size_def Payload_min_size_eq Block_min_size_eq
  Segregated_find_free_block_def Segregated_get_bucket_eq
  Segregated_insert_header_def Segregated_remove_header_def
  LinkedList_insert_at_front_def LinkedList_remove_def
  coalesce_def coalesce_left_def extend_memory_eq allocate_def split_block_def
  mirror_header_to_footer_def mm_free_def mm_init_def
  find_free_block_explicit_list_firstfit.simps

lemma malloc_fit:
  assumes "sz \<noteq> 0" "Segregated_find_free_block sz s = Some header" "header \<noteq> 0"
  shows "mm_malloc sz s = Some (allocate header sz s)"
  using assms by (subst mm_malloc.simps) simp

lemma malloc_extend:
  assumes "sz \<noteq> 0" "Segregated_find_free_block sz s = Some 0"
    "extend_memory sz s = (True, s1)"
  shows "mm_malloc sz s = mm_malloc sz s1"
  using assms by (subst mm_malloc.simps) simp

lemma malloc_fail:
  assumes "sz \<noteq> 0" "Segregated_find_free_block sz s = Some 0"
    "extend_memory sz s = (False, s1)"
  shows "mm_malloc sz s = Some (0, s1)"
  using assms by (subst mm_malloc.simps) simp

lemma heap1_reached: "mm_init fresh_heap = Some heap1"
  by (simp add: fresh_heap_def heap1_def eval_defs cong: let_weak_cong)

lemma heap1_no_fit: "Segregated_find_free_block 240 heap1 = Some 0"
  by (simp add: heap1_def eval_defs cong: let_weak_cong)

lemma heap1_extended: "extend_memory 240 heap1 = (True, heap3)"
  by (simp add: heap1_def heap3_def eval_defs cong: let_weak_cong)

lemma heap3_fit: "Segregated_find_free_block 240 heap3 = Some 4120"
  by (simp add: heap3_def eval_defs cong: let_weak_cong)

lemma heap3_allocate: "allocate 4120 240 heap3 = (4128, heap2)"
  by (simp add: heap3_def heap2_def eval_defs cong: let_weak_cong)

lemma heap2_reached: "mm_malloc 240 heap1 = Some (4128, heap2)"
  by (simp add: malloc_extend [OF _ heap1_no_fit heap1_extended]
      malloc_fit [OF _ heap3_fit] heap3_allocate)

lemma heap3_reached: "mm_free 4128 heap2 = heap3"
  by (simp add: heap2_def heap3_def eval_defs cong: let_weak_cong)

lemma heap4_reached: "extend_memory 18446744073709551615 heap3 = (True, heap4)"
  by (simp add: heap3_def heap4_def eval_defs cong: let_weak_cong)

lemma heap5_reached: "extend_memory 18446744073709551615 heap4 = (True, heap5)"
  by (simp add: heap4_def heap5_def eval_defs cong: let_weak_cong)

lemma heap3_no_fit: "Segregated_find_free_block 18446744073709551615 heap3 = Some 0"
  by (simp add: heap3_def eval_defs cong: let_weak_cong)

lemma heap4_no_fit: "Segregated_find_free_block 18446744073709551615 heap4 = Some 0"
  by (simp add: heap4_def eval_defs cong: let_weak_cong)

lemma heap5_no_fit: "Segregated_find_free_block 18446744073709551615 heap5 = Some 0"
  by (simp add: heap5_def eval_defs cong: let_weak_cong)

lemma heap5_full: "extend_memory 18446744073709551615 heap5 = (False, heap5)"
  by (simp add: heap5_def extend_memory_def mm_sbrk_def adjusted_size_def align_16
      Payload_min_size_eq Header_size_def Footer_size_def)

lemma malloc_max_heap3: "mm_malloc 18446744073709551615 heap3 = Some (0, heap5)"
  by (simp add: malloc_extend [OF _ heap3_no_fit heap4_reached]
      malloc_extend [OF _ heap4_no_fit heap5_reached]
      malloc_fail [OF _ heap5_no_fit heap5_full])

lemma heap6_no_fit: "Segregated_find_free_block 16 heap1 = Some 0"
  by (simp add: heap1_def eval_defs cong: let_weak_cong)

lemma heap6_extended: "extend_memory 16 heap1 = (True, heap6_free)"
  by (simp add: heap1_def heap6_free_def eval_defs cong: let_weak_cong)

lemma heap6_fit: "Segregated_find_free_block 16 heap6_free = Some 4120"
  by (simp add: heap6_free_def eval_defs cong: let_weak_cong)

lemma heap6_allocate: "allocate 4120 16 heap6_free = (4128, heap6)"
  by (simp add: heap6_free_def heap6_def eval_defs cong: let_weak_cong)

lemma heap6_reached: "mm_malloc 16 heap1 = Some (4128, heap6)"
  by (simp add: malloc_extend [OF _ heap6_no_fit heap6_extended]
      malloc_fit [OF _ heap6_fit] heap6_allocate)

lemma heap6_freed: "mm_free 4128 heap6 = heap6_free"
  by (simp add: heap6_def heap6_free_def eval_defs cong: let_weak_cong)

lemma heap6_free_max_fit:
  "Segregated_find_free_block 18446744073709551615 heap6_free = Some 4120"
  by (simp add: heap6_free_def eval_defs cong: let_weak_cong)

lemma wrapped_numerals:
  "(18446744073709551616 :: 64 word) = 0"
  "(18446744073709555760 :: 64 word) = 4144"
  "(18446744073709555768 :: 64 word) = 4152"
  by simp_all

lemma heap6_big_no_fit: "Segregated_find_free_block 18446744073709551608 heap6 = Some 0"
  by (simp add: heap6_def eval_defs cong: let_weak_cong)

lemma heap7_reached: "extend_memory 18446744073709551608 heap6 = (True, heap7)"
  by (simp add: heap6_def heap7_def eval_defs wrapped_numerals cong: let_weak_cong)

lemma heap7_no_fit: "Segregated_find_free_block 18446744073709551608 heap7 = Some 0"
  by (simp add: heap7_def eval_defs cong: let_weak_cong)

lemma heap8_reached: "extend_memory 18446744073709551608 heap7 = (True, heap8)"
  by (simp add: heap7_def heap8_def eval_defs wrapped_numerals cong: let_weak_cong)

text \<open>
  Claim C9. If no fit exists and the heap extension succeeds, the single retried
  request finds a fit, so a call of \<^verbatim>\<open>malloc\<close> extends the heap at most once.
  On the heap reached by \<^verbatim>\<open>mm_init(); p = malloc(240); free(p);\<close> the call
  \<^verbatim>\<open>malloc(2^64 - 1)\<close> finds no fit, extends the heap by 32 bytes, finds no fit
  again on the retry, extends by another 32 bytes, and returns \<^verbatim>\<open>NULL\<close> only when
  the growth primitive refuses the third extension.
\<close>

theorem malloc_extends_twice:
  "mm_init fresh_heap = Some heap1 \<and> mm_malloc 240 heap1 = Some (4128, heap2)
   \<and> mm_free 4128 heap2 = heap3
   \<and> Segregated_find_free_block 18446744073709551615 heap3 = Some 0
   \<and> extend_memory 18446744073709551615 heap3 = (True, heap4)
   \<and> Segregated_find_free_block 18446744073709551615 heap4 = Some 0
   \<and> extend_memory 18446744073709551615 heap4 = (True, heap5)
   \<and> brk heap4 = brk heap3 + 32 \<and> brk heap5 = brk heap3 + 64
   \<and> mm_malloc 18446744073709551615 heap3 = Some (0, heap5)"
  by (simp add: heap1_reached heap2_reached heap3_reached heap3_no_fit heap4_reached
      heap4_no_fit heap5_reached malloc_max_heap3)
    (simp add: heap3_def heap4_def heap5_def)

lemma heap1_no_fit_100: "Segregated_find_free_block 100 heap1 = Some 0"
  by (simp add: heap1_def eval_defs cong: let_weak_cong)

lemma heap9_extended: "extend_memory 100 heap1 = (True, heap9)"
  by (simp add: heap1_def heap9_def eval_defs cong: let_weak_cong)

lemma heap9_fit: "Segregated_find_free_block 100 heap9 = Some 4120"
  by (simp add: heap9_def eval_defs cong: let_weak_cong)

lemma heap9_allocate: "allocate 4120 100 heap9 = (4128, heap10)"
  by (simp add: heap9_def heap10_def eval_defs cong: let_weak_cong)

lemma heap10_reached: "mm_malloc 100 heap1 = Some (4128, heap10)"
  by (simp add: malloc_extend [OF _ heap1_no_fit_100 heap9_extended]
      malloc_fit [OF _ heap9_fit] heap9_allocate)

lemma heap10_no_fit: "Segregated_find_free_block 56 heap10 = Some 0"
  by (simp add: heap10_def eval_defs cong: let_weak_cong)

lemma heap11_extended: "extend_memory 56 heap10 = (True, heap11)"
  by (simp add: heap10_def heap11_def eval_defs cong: let_weak_cong)

lemma heap11_fit: "Segregated_find_free_block 56 heap11 = Some 4232"
  by (simp add: heap11_def eval_defs cong: let_weak_cong)

lemma heap11_allocate: "allocate 4232 56 heap11 = (4240, heap12)"
  by (simp add: heap11_def heap12_def eval_defs cong: let_weak_cong)

lemma heap12_reached: "mm_malloc 56 heap10 = Some (4240, heap12)"
  by (simp add: malloc_extend [OF _ heap10_no_fit heap11_extended]
      malloc_fit [OF _ heap11_fit] heap11_allocate)

lemma heap13_reached: "mm_free 4128 heap12 = heap13"
  by (simp add: heap12_def heap13_def eval_defs cong: let_weak_cong)

lemma heap13_fit: "Segregated_find_free_block 18446744073709551615 heap13 = Some 4120"
  by (simp add: heap13_def eval_defs cong: let_weak_cong)

lemma heap13_allocate: "allocate 4120 18446744073709551615 heap13 = (4128, heap14)"
  by (simp add: heap13_def heap14_def eval_defs cong: let_weak_cong)

lemma heap14_reached: "mm_malloc 18446744073709551615 heap13 = Some (4128, heap14)"
  by (simp add: malloc_fit [OF _ heap13_fit] heap13_allocate)

lemma heap15_reached: "heap14\<lparr>mem := memcpy (mem heap14) 4128 4240 56\<rparr> = heap15"
  by (simp add: heap14_def heap15_def memcpy_56 store64_mem_of load64_mem_of word_aligned_def)

lemma heap16_reached: "mm_free 4240 heap15 = heap16"
  by (simp add: heap15_def heap16_def eval_defs cong: let_weak_cong)

lemma heap13_capacity: "GET_SIZE (mem heap13) (Payload_get_header 4240) + Footer_size = 56"
  by (simp add: nav_defs GET_SIZE_def heap13_def load64_mem_of word_aligned_def)

lemma realloc_heap13: "mm_realloc 4240 18446744073709551615 heap13 = Some (4128, heap16)"
  by (simp add: mm_realloc_def Let_def heap13_capacity heap14_reached heap15_reached
      heap16_reached)

text \<open>
  Claim C2. After every completed operation no two adjacent blocks are both free.
  The run \<^verbatim>\<open>mm_init(); p1 = malloc(100); p2 = malloc(56); free(p1);
  realloc(p2, 2^64 - 1);\<close> completes, \<^verbatim>\<open>realloc\<close> returning 4128. For the request
  \<open>2^64 - 1\<close> \<^verbatim>\<open>malloc\<close> computes the payload 16 and hands out a block of capacity 24,
  \<^verbatim>\<open>realloc\<close> copies the 56 bytes of the old capacity into it, over the header of
  the free block behind it, and \<^verbatim>\<open>free(p2)\<close> then merges with a block whose size reads
  0. In the final heap the walk from the prologue reaches the blocks at 4120, 4152
  and 4232, and the adjacent blocks at 4152 and 4232 are both free.
\<close>

theorem realloc_leaves_adjacent_free_blocks:
  "mm_init fresh_heap = Some heap1 \<and> mm_malloc 100 heap1 = Some (4128, heap10)
   \<and> mm_malloc 56 heap10 = Some (4240, heap12) \<and> mm_free 4128 heap12 = heap13
   \<and> mm_realloc 4240 18446744073709551615 heap13 = Some (4128, heap16)
   \<and> Header_get_next_header (mem heap16) (heap heap16) = 4120
   \<and> Header_get_next_header (mem heap16) 4120 = 4152
   \<and> Header_get_next_header (mem heap16) 4152 = 4232
   \<and> GET_FREE_BIT (mem heap16) 4152 \<and> GET_FREE_BIT (mem heap16) 4232"
proof -
  have "Header_get_next_header (mem heap16) (heap heap16) = 4120
   \<and> Header_get_next_header (mem heap16) 4120 = 4152
   \<and> Header_get_next_header (mem heap16) 4152 = 4232
   \<and> GET_FREE_BIT (mem heap16) 4152 \<and> GET_FREE_BIT (mem heap16) 4232"
    by (simp add: heap16_def nav_defs GET_SIZE_def GET_FREE_BIT_def load64_mem_of
        word_aligned_def)
  then show ?thesis
    by (simp add: heap1_reached heap10_reached heap12_reached heap13_reached realloc_heap13)
qed





section \<open>The fit search\<close>

lemma class_scan_find:
  "class_scan fl b =
     (case find (\<lambda>i. fl i \<noteq> 0) [b..<14] of
        None \<Rightarrow> None | Some i \<Rightarrow> Some (Payload_get_header (fl i)))"
proof (induction fl b rule: class_scan.induct)
  case (1 fl i)
  show ?case
  proof (cases "i < 14")
    case True
    then have "[i..<14] = i # [Suc i..<14]" by (simp add: upt_rec)
    with True 1 show ?thesis by (subst class_scan.simps) simp
  next
    case False
    then show ?thesis by (subst class_scan.simps) simp
  qed
qed

lemma firstfit_dlist:
  assumes "dlist m l ls"
  shows "find_free_block_explicit_list_firstfit m l n =
     Some (case find (\<lambda>x. n \<le> GET_SIZE m (Payload_get_header x) + Footer_size) ls of
             None \<Rightarrow> 0 | Some x \<Rightarrow> Payload_get_header x)"
  using assms
proof (induction rule: dlist.induct)
  case (dlist_null m)
  show ?case by (subst find_free_block_explicit_list_firstfit.simps) simp
next
  case (dlist_node l m ls)
  then show ?case by (subst find_free_block_explicit_list_firstfit.simps) simp
qed

lemma adjusted_size_mult:
  "\<exists>q. unat (adjusted_size n) = 16 * q \<and> 1 \<le> q"
proof -
  have "\<exists>q. unat (align x) = 16 * q" for x
  proof -
    have "unat ((x + 15) div 16) * 16 \<le> unat (x + 15)"
      by (simp add: unat_div)
    also have "\<dots> < 2 ^ 64"
      using unsigned_less [of "x + 15", where ?'a = nat] by simp
    finally have "unat (16 * ((x + 15) div 16)) = 16 * unat ((x + 15) div 16)"
      by (simp add: unat_word_ariths)
    then show ?thesis by (auto simp add: align_16)
  qed
  then obtain q where q: "unat (align (n - 8)) = 16 * q" by blast
  show ?thesis
  proof (cases "align (n - 8) > Payload_min_size")
    case True
    then have "16 < 16 * q" using q by (simp add: Payload_min_size_eq word_less_nat_alt)
    with True q show ?thesis by (auto simp add: adjusted_size_def Let_def)
  next
    case False
    then show ?thesis
      by (auto simp add: adjusted_size_def Let_def Payload_min_size_eq intro: exI [of _ 1])
  qed
qed

lemma bucket_index:
  "Segregated_get_bucket (adjusted_size n) =
     (if unat (adjusted_size n) \<le> 224 then unat (adjusted_size n) div 16 - 1 else 14)"
proof -
  obtain q where q: "unat (adjusted_size n) = 16 * q" "1 \<le> q"
    using adjusted_size_mult by blast
  have eq: "adjusted_size n = c \<longleftrightarrow> 16 * q = unat c" for c
    using q by (simp add: word_unat_eq_iff)
  show ?thesis
    unfolding Segregated_get_bucket_eq eq q(1) using q(2)
    by (simp; presburger)
qed


lemma case_case_option:
  "(case (case x of None \<Rightarrow> None | Some i \<Rightarrow> Some (f i)) of
      Some h \<Rightarrow> Some h | None \<Rightarrow> d) =
   (case x of Some i \<Rightarrow> Some (f i) | None \<Rightarrow> d)"
  by (cases x) simp_all

lemma find_free_block_scan:
  "Segregated_find_free_block n s =
     (case find (\<lambda>i. freelists s i \<noteq> 0) [Segregated_get_bucket (adjusted_size n)..<14] of
        Some i \<Rightarrow> Some (Payload_get_header (freelists s i))
      | None \<Rightarrow> find_free_block_explicit_list_firstfit (mem s) (freelists s 14) n)"
  by (simp only: Segregated_find_free_block_def class_scan_find search_size_eq
      case_case_option)

lemma bucket_spec_in_range:
  assumes "1 \<le> unat n" "unat n \<le> 2 ^ 64 - 8"
  shows "Segregated_get_bucket (adjusted_size n) = size_class_index_spec (need_spec (unat n))"
proof -
  obtain q where q: "unat (adjusted_size n) = 16 * q" "1 \<le> q"
    using adjusted_size_mult by blast
  have "need_spec (unat n) = 16 * q"
    using adjusted_size_in_range [OF assms] q by simp
  with q show ?thesis
    by (simp add: bucket_index size_class_index_spec_def)
qed

text \<open>
  For the requests from 1 to \<open>2^64 - 8\<close>, on a null-terminated list 14 whose
  capacities do not wrap, the search of the code is the policy of the specification.
\<close>

lemma find_fit_in_range:
  assumes "1 \<le> unat n" "unat n \<le> 2 ^ 64 - 8"
    and "dlist (mem s) (freelists s 14) ls"
    and "\<forall>l \<in> set ls. unat (GET_SIZE (mem s) (Payload_get_header l)) + 8 < 2 ^ 64"
  shows "Segregated_find_free_block n s = Some (find_fit_spec (unat n) s ls)"
proof -
  have cmp: "(n \<le> GET_SIZE (mem s) (Payload_get_header l) + 8)
      = (unat n \<le> unat (GET_SIZE (mem s) (Payload_get_header l)) + 8)" if "l \<in> set ls" for l
    using assms(4) that by (simp add: word_le_nat_alt unat_word_ariths)
  have "find (\<lambda>x. n \<le> GET_SIZE (mem s) (Payload_get_header x) + 8) ls
      = find (\<lambda>l. unat n \<le> unat (GET_SIZE (mem s) (Payload_get_header l)) + 8) ls"
    by (rule find_cong) (simp_all add: cmp)
  then show ?thesis
    using firstfit_dlist [OF assms(3), of n]
    by (simp add: find_free_block_scan find_fit_spec_def bucket_spec_in_range [OF assms(1,2)]
        Footer_size_def split: option.split)
qed

text \<open>
  Claim C4. The fit search starts at the size class of \<open>need\<close>. For the request
  \<open>2^64 - 1\<close> on the heap reached by \<^verbatim>\<open>mm_init(); p = malloc(16); free(p);\<close> the
  specification's \<open>need\<close> is \<open>2^64\<close>, of class 14, list 14 is empty and the policy
  reports no fit. The code computes the payload 16 (the rounding of \<^verbatim>\<open>align\<close> wraps),
  starts at class 0 and returns the head of list 0, a block of payload 16.
\<close>

theorem find_fit_ignores_overflow:
  "mm_init fresh_heap = Some heap1 \<and> mm_malloc 16 heap1 = Some (4128, heap6)
   \<and> mm_free 4128 heap6 = heap6_free
   \<and> search_size 18446744073709551615 = 16
   \<and> Segregated_get_bucket (search_size 18446744073709551615) = 0
   \<and> freelists heap6_free 0 = 4128
   \<and> Segregated_find_free_block 18446744073709551615 heap6_free = Some 4120
   \<and> GET_SIZE (mem heap6_free) 4120 = 16
   \<and> size_class_index_spec (need_spec (unat (18446744073709551615 :: 64 word))) = 14
   \<and> freelists heap6_free 14 = 0
   \<and> find_fit_spec (unat (18446744073709551615 :: 64 word)) heap6_free [] = 0"
proof -
  have "GET_SIZE (mem heap6_free) 4120 = 16"
    by (simp add: GET_SIZE_def heap6_free_def load64_mem_of word_aligned_def)
  moreover have "freelists heap6_free 0 = 4128 \<and> freelists heap6_free 14 = 0"
    by (simp add: heap6_free_def)
  moreover have "search_size 18446744073709551615 = 16"
    by (simp add: search_size_def align_16 Payload_min_size_eq)
  moreover have "Segregated_get_bucket (search_size 18446744073709551615) = 0"
    by (simp add: search_size_def align_16 Payload_min_size_eq Segregated_get_bucket_eq)
  moreover have "size_class_index_spec (need_spec (unat (18446744073709551615 :: 64 word))) = 14"
    by (simp add: need_spec_def align_up_def size_class_index_spec_def)
  moreover have "find_fit_spec (unat (18446744073709551615 :: 64 word)) heap6_free [] = 0"
    by (simp add: find_fit_spec_def need_spec_def align_up_def size_class_index_spec_def)
  ultimately show ?thesis
    by (simp add: heap1_reached heap6_reached heap6_freed heap6_free_max_fit)
qed


section \<open>Resizing\<close>

lemma firstfit_self_loop:
  assumes "l \<noteq> 0" "\<not> sz \<le> GET_SIZE m (Payload_get_header l) + Footer_size"
    "load64 m (l + 8) = l"
  shows "find_free_block_explicit_list_firstfit m l sz = None"
proof (rule ccontr)
  assume "find_free_block_explicit_list_firstfit m l sz \<noteq> None"
  then obtain y where y: "find_free_block_explicit_list_firstfit m l sz = Some y" by blast
  have "\<not> (m = m \<and> l = l \<and> sz = sz)"
  proof (rule find_free_block_explicit_list_firstfit.raw_induct
      [where P = "\<lambda>m' l' sz' y'. \<not> (m' = m \<and> l' = l \<and> sz' = sz)", OF _ y])
    fix f m' l' sz' y'
    assume ih: "\<And>a b c z. f a b c = Some z \<Longrightarrow> \<not> (a = m \<and> b = l \<and> c = sz)"
      and body: "(if l' \<noteq> 0
          then if sz' \<le> GET_SIZE m' (Payload_get_header l') + Footer_size
               then Some (Payload_get_header l') else f m' (load64 m' (l' + 8)) sz'
          else Some 0) = Some y'"
    show "\<not> (m' = m \<and> l' = l \<and> sz' = sz)"
    proof
      assume eq: "m' = m \<and> l' = l \<and> sz' = sz"
      with body assms have "f m l sz = Some y'" by simp
      with ih show False by blast
    qed
  qed
  then show False by simp
qed

lemma heap8_search_diverges: "Segregated_find_free_block 18446744073709551608 heap8 = None"
proof -
  have "find_free_block_explicit_list_firstfit (mem heap8) 4160 18446744073709551608 = None"
    by (rule firstfit_self_loop)
      (simp_all add: heap8_def nav_defs GET_SIZE_def load64_mem_of word_aligned_def)
  moreover have "class_scan (freelists heap8) 14 = None"
    by (subst class_scan.simps) simp
  moreover have "Segregated_get_bucket (search_size 18446744073709551608) = 14"
    by (simp add: search_size_def align_16 Payload_min_size_eq Segregated_get_bucket_eq)
  ultimately show ?thesis
    by (simp add: Segregated_find_free_block_def heap8_def)
qed

lemma malloc_diverges:
  assumes "sz \<noteq> 0" "Segregated_find_free_block sz s = None"
  shows "mm_malloc sz s = None"
  using assms by (subst mm_malloc.simps) simp

lemma heap6_malloc_diverges: "mm_malloc 18446744073709551608 heap6 = None"
  by (simp add: malloc_extend [OF _ heap6_big_no_fit heap7_reached]
      malloc_extend [OF _ heap7_no_fit heap8_reached]
      malloc_diverges [OF _ heap8_search_diverges])

text \<open>
  Claim C7. When the capacity is too small, \<^verbatim>\<open>realloc\<close> allocates a new block, copies,
  frees the old block and returns the new pointer, or returns \<^verbatim>\<open>NULL\<close> with the old
  block intact when the allocation fails. On the heap reached by
  \<^verbatim>\<open>mm_init(); p = malloc(16);\<close> the block \<open>p = 4128\<close> has capacity 24, and
  \<^verbatim>\<open>realloc(p, 2^64 - 8)\<close> never returns: no block fits, the increment
  \<open>size + 16\<close> of \<^verbatim>\<open>extend_memory\<close> wraps to 0 and is granted without moving the break,
  and the extension writes a footer over the word at \<open>p + 16\<close>, inside the capacity of
  \<open>p\<close>, which changes from 16 to \<open>2^64 - 15\<close>.
\<close>

theorem realloc_never_returns:
  "mm_init fresh_heap = Some heap1 \<and> mm_malloc 16 heap1 = Some (4128, heap6)
   \<and> GET_SIZE (mem heap6) (Payload_get_header 4128) + Footer_size = 24
   \<and> mm_realloc 4128 18446744073709551608 heap6 = None
   \<and> Segregated_find_free_block 18446744073709551608 heap6 = Some 0
   \<and> extend_memory 18446744073709551608 heap6 = (True, heap7)
   \<and> brk heap7 = brk heap6
   \<and> load64 (mem heap6) (4128 + 16) = 16
   \<and> load64 (mem heap7) (4128 + 16) = 18446744073709551601"
proof -
  have cap: "GET_SIZE (mem heap6) (Payload_get_header 4128) + Footer_size = 24"
    by (simp add: nav_defs GET_SIZE_def heap6_def load64_mem_of word_aligned_def)
  have "mm_realloc 4128 18446744073709551608 heap6 = None"
    by (simp add: mm_realloc_def Let_def cap heap6_malloc_diverges)
  moreover have "load64 (mem heap6) (4128 + 16) = 16"
    by (simp add: heap6_def load64_mem_of word_aligned_def)
  moreover have "load64 (mem heap7) (4128 + 16) = 18446744073709551601"
    by (simp add: heap7_def load64_mem_of word_aligned_def)
  moreover have "brk heap7 = brk heap6"
    by (simp add: heap6_def heap7_def)
  ultimately show ?thesis
    by (simp add: heap1_reached heap6_reached cap heap6_big_no_fit heap7_reached)
qed


section \<open>Tags of multiples of 16 and words that do not overlap\<close>

lemma L0: "push_bit 4 q AND NOT (mask 2) = (push_bit 4 q :: 64 word)"
  by (rule bit_word_eqI) (auto simp add: bit_simps)

lemma L1: "(push_bit 4 q OR mask 1) AND NOT (mask 2) = (push_bit 4 q :: 64 word)"
  by (rule bit_word_eqI) (auto simp add: bit_simps)

lemma L2: "(push_bit 4 q OR push_bit 1 (mask 1)) AND NOT (mask 2) = (push_bit 4 q :: 64 word)"
  by (rule bit_word_eqI) (auto simp add: bit_simps)

lemma L3: "(push_bit 4 q OR mask 2) AND NOT (mask 2) = (push_bit 4 q :: 64 word)"
  by (rule bit_word_eqI) (auto simp add: bit_simps)

lemma F0: "push_bit 4 q AND mask 1 = (0 :: 64 word)"
  by (rule bit_word_eqI) (auto simp add: bit_simps)

lemma F1: "(push_bit 4 q OR mask 1) AND mask 1 = (mask 1 :: 64 word)"
  by (rule bit_word_eqI) (auto simp add: bit_simps)

lemma F2: "(push_bit 4 q OR push_bit 1 (mask 1)) AND mask 1 = (0 :: 64 word)"
  by (rule bit_word_eqI) (auto simp add: bit_simps)

lemma F3: "(push_bit 4 q OR mask 2) AND mask 1 = (mask 1 :: 64 word)"
  by (rule bit_word_eqI) (auto simp add: bit_simps)

lemma P0: "push_bit 4 q AND push_bit 1 (mask 1) = (0 :: 64 word)"
  by (rule bit_word_eqI) (auto simp add: bit_simps)

lemma P1: "(push_bit 4 q OR mask 1) AND push_bit 1 (mask 1) = (0 :: 64 word)"
  by (rule bit_word_eqI) (auto simp add: bit_simps)

lemma P2: "(push_bit 4 q OR push_bit 1 (mask 1)) AND push_bit 1 (mask 1) = (push_bit 1 (mask 1) :: 64 word)"
  by (rule bit_word_eqI) (auto simp add: bit_simps)

lemma P3: "(push_bit 4 q OR mask 2) AND push_bit 1 (mask 1) = (push_bit 1 (mask 1) :: 64 word)"
  by (rule bit_word_eqI) (auto simp add: bit_simps)

lemma flag_consts: "(1 :: 64 word) = mask 1" "(2 :: 64 word) = push_bit 1 (mask 1)" "(3 :: 64 word) = mask 2"
  by (simp_all add: mask_eq_exp_minus_1)

lemma mult16_push: "(16 * q :: 64 word) = push_bit 4 q"
  by (simp add: push_bit_eq_mult)

lemma tag16_size_cases:
  "(16 * q) AND NOT 3 = (16 * q :: 64 word)"
  "(16 * q OR 1) AND NOT 3 = (16 * q :: 64 word)"
  "(16 * q OR 2) AND NOT 3 = (16 * q :: 64 word)"
  "(16 * q OR 3) AND NOT 3 = (16 * q :: 64 word)"
  unfolding mult16_push flag_consts by (rule L0 L1 L2 L3)+

lemma tag16_free_cases:
  "(16 * q) AND 1 = (0 :: 64 word)"
  "(16 * q OR 1) AND 1 = (1 :: 64 word)"
  "(16 * q OR 2) AND 1 = (0 :: 64 word)"
  "(16 * q OR 3) AND 1 = (1 :: 64 word)"
  unfolding mult16_push flag_consts by (rule F0 F1 F2 F3)+

lemma tag16_prev_cases:
  "(16 * q) AND 2 = (0 :: 64 word)"
  "(16 * q OR 1) AND 2 = (0 :: 64 word)"
  "(16 * q OR 2) AND 2 = (2 :: 64 word)"
  "(16 * q OR 3) AND 2 = (2 :: 64 word)"
  unfolding mult16_push flag_consts by (rule P0 P1 P2 P3)+

lemma tag_word_cases:
  "tag_word x False False = x"
  "tag_word x True False = x OR 1"
  "tag_word x False True = x OR 2"
  "tag_word x True True = x OR 3"
proof -
  have "(2 :: 64 word) OR 1 = 3" by simp
  then show "tag_word x False False = x" "tag_word x True False = x OR 1"
    "tag_word x False True = x OR 2" "tag_word x True True = x OR 3"
    by (simp_all only: tag_word_def if_True if_False or.right_neutral or.left_neutral)
qed

lemma tag16_size: "tag_word (16 * q) f p AND NOT 3 = 16 * q"
  by (cases f; cases p) (simp_all only: tag_word_cases tag16_size_cases)

lemma tag16_free: "(tag_word (16 * q) f p AND 1 \<noteq> 0) = f"
  by (cases f; cases p) (simp_all only: tag_word_cases tag16_free_cases, simp_all)

lemma tag16_prev: "(tag_word (16 * q) f p AND push_bit 1 1 \<noteq> 0) = p"
proof -
  have e: "push_bit 1 (1 :: 64 word) = 2" by simp
  show ?thesis
    unfolding e
    by (cases f; cases p) (simp_all only: tag_word_cases tag16_prev_cases, simp_all)
qed

lemma far_sym: "far x a \<Longrightarrow> far a x"
  by (auto simp add: far_def)

lemma load64_store64_far: "far x a \<Longrightarrow> load64 (store64 m a v) x = load64 m x"
  by (simp add: far_def load64_store64_other)

lemma far_diff:
  assumes "8 \<le> unat d" "unat d + 8 \<le> 2 ^ 64"
  shows "far x (x + d)"
proof -
  from unat_sub_if_size [of 0 d] assms(1) have "unat (- d) = 2 ^ 64 - unat d"
    by (simp add: word_size)
  then have "8 \<le> unat (- d)" using assms(2) by simp
  then show ?thesis
    using assms(1) by (simp add: far_def word_le_nat_alt)
qed

lemma far_offsets:
  fixes N b :: "64 word"
  assumes "16 \<le> unat N" "unat N \<le> 2 ^ 64 - 25"
  shows "far (b - 8) b" "far (b - 8) (b + 8)" "far (b - 8) (b + N)" "far (b - 8) (b + N + 8)"
    "far b (b + 8)" "far b (b + N)" "far b (b + N + 8)"
    "far (b + 8) (b + N)" "far (b + 8) (b + N + 8)" "far (b + N) (b + N + 8)"
proof -
  have u8: "unat (N + 8) = unat N + 8" and u16: "unat (N + 16) = unat N + 16"
    using assms(2) by (simp_all add: unat_word_ariths)
  have um: "unat (N - 8) = unat N - 8"
    using assms(1) by (simp add: unat_sub word_le_nat_alt)
  have e1: "b - 8 + 8 = b" "b - 8 + 16 = b + 8" "b - 8 + (N + 8) = b + N"
    "b - 8 + (N + 16) = b + N + 8" "b + (N + 8) = b + N + 8" "b + 8 + (N - 8) = b + N"
    "b + 8 + N = b + N + 8"
    by simp_all
  show "far (b - 8) b" using far_diff [of 8 "b - 8"] by ((simp only: e1)?; simp?)
  show "far (b - 8) (b + 8)" using far_diff [of 16 "b - 8"] by ((simp only: e1)?; simp?)
  show "far (b - 8) (b + N)" using far_diff [of "N + 8" "b - 8"] assms u8 by ((simp only: e1)?; simp?)
  show "far (b - 8) (b + N + 8)" using far_diff [of "N + 16" "b - 8"] assms u16
    by ((simp only: e1)?; simp?)
  show "far b (b + 8)" using far_diff [of 8 b] by simp
  show "far b (b + N)" using far_diff [of N b] assms by simp
  show "far b (b + N + 8)" using far_diff [of "N + 8" b] assms u8 by ((simp only: e1)?; simp?)
  show "far (b + 8) (b + N)" using far_diff [of "N - 8" "b + 8"] assms um by ((simp only: e1)?; simp?)
  show "far (b + 8) (b + N + 8)" using far_diff [of N "b + 8"] assms by ((simp only: e1)?; simp?)
  show "far (b + N) (b + N + 8)" using far_diff [of 8 "b + N"] by simp
qed

lemma adjusted_size_mult16: "\<exists>q. adjusted_size n = 16 * q"
proof (cases "align (n - 8) > Payload_min_size")
  case True
  then show ?thesis by (auto simp add: adjusted_size_def Let_def align_16)
next
  case False
  then have "adjusted_size n = 16 * 1"
    by (simp add: adjusted_size_def Let_def Payload_min_size_eq)
  then show ?thesis by blast
qed

lemma tag0_fields:
  "tag_word 0 f p AND NOT 3 = 0"
  "(tag_word 0 f p AND 1 \<noteq> 0) = f"
  "(tag_word 0 f p AND push_bit 1 1 \<noteq> 0) = p"
  using tag16_size [of 0 f p] tag16_free [of 0 f p] tag16_prev [of 0 f p] by simp_all

lemma get_set_same:
  "GET_SIZE (SET_VALUE m a (16 * q) f p) a = 16 * q"
  "GET_FREE_BIT (SET_VALUE m a (16 * q) f p) a = f"
  "GET_PREV_BLOCK_FREE_BIT (SET_VALUE m a (16 * q) f p) a = p"
  "GET_SIZE (SET_VALUE m a 0 f p) a = 0"
  "GET_FREE_BIT (SET_VALUE m a 0 f p) a = f"
  "GET_PREV_BLOCK_FREE_BIT (SET_VALUE m a 0 f p) a = p"
  by (simp_all only: GET_SIZE_def GET_FREE_BIT_def GET_PREV_BLOCK_FREE_BIT_def SET_VALUE_def
      load64_store64_same tag16_size tag16_free tag16_prev tag0_fields)

lemma get_set_far:
  assumes "far x a"
  shows "GET_SIZE (SET_VALUE m a v f p) x = GET_SIZE m x"
    "GET_FREE_BIT (SET_VALUE m a v f p) x = GET_FREE_BIT m x"
    "GET_PREV_BLOCK_FREE_BIT (SET_VALUE m a v f p) x = GET_PREV_BLOCK_FREE_BIT m x"
    "GET_SIZE (store64 m a u) x = GET_SIZE m x"
    "GET_FREE_BIT (store64 m a u) x = GET_FREE_BIT m x"
    "GET_PREV_BLOCK_FREE_BIT (store64 m a u) x = GET_PREV_BLOCK_FREE_BIT m x"
  using assms
  by (simp_all only: GET_SIZE_def GET_FREE_BIT_def GET_PREV_BLOCK_FREE_BIT_def SET_VALUE_def
      load64_store64_far)

lemma get_zero_word:
  assumes "load64 m a = 0"
  shows "GET_SIZE m a = 0" "GET_FREE_BIT m a = False" "GET_PREV_BLOCK_FREE_BIT m a = False"
  using assms by (simp_all add: GET_SIZE_def GET_FREE_BIT_def GET_PREV_BLOCK_FREE_BIT_def)


section \<open>Allocation on a freshly initialised heap\<close>

lemma find_on_empty_index:
  assumes "\<forall>i. freelists s i = 0"
  shows "Segregated_find_free_block w s = Some 0"
proof -
  have "find (\<lambda>i. freelists s i \<noteq> 0) xs = None" for xs
    using assms by (induction xs) simp_all
  moreover have "find_free_block_explicit_list_firstfit (mem s) 0 w = Some 0"
    by (subst find_free_block_explicit_list_firstfit.simps) simp
  ultimately show ?thesis
    using assms by (simp add: find_free_block_scan)
qed

lemma bucket_le_14: "Segregated_get_bucket x \<le> 14"
  by (simp add: Segregated_get_bucket_eq)

lemma adjusted_size_big:
  assumes "2 ^ 64 - 8 < unat w"
  shows "adjusted_size w = 16"
proof -
  have "unat w < 2 ^ 64"
    using unsigned_less [of w, where ?'a = nat] by simp
  moreover have "unat (w + 7) = (unat w + 7) mod 2 ^ 64"
    by (simp add: unat_word_ariths)
  ultimately have "unat (w + 7) = unat w + 7 - 2 ^ 64"
    using assms by (simp add: mod_if)
  then have "unat (w + 7) < 16"
    using \<open>unat w < 2 ^ 64\<close> by simp
  then have "unat ((w + 7) div 16) = 0"
    by (simp add: unat_div)
  then have "(w + 7) div 16 = 0"
    by (simp add: unat_eq_0)
  moreover have "w - 8 + 15 = w + 7" by simp
  ultimately have "align (w - 8) = 0"
    by (simp add: align_16 add.commute)
  then show ?thesis
    by (simp add: adjusted_size_def Payload_min_size_eq)
qed

lemma malloc_on_fresh_heap:
  assumes fl: "\<forall>i. freelists s i = 0"
    and ep: "load64 (mem s) (brk s - 8) = 0"
    and b8: "16 \<le> unat (brk s)"
    and grant: "unat (brk s) + unat (adjusted_size w) + 16 \<le> unat (brk_max s)"
    and w0: "w \<noteq> 0"
  shows "\<exists>s'. mm_malloc w s = Some (brk s, s')
      \<and> GET_SIZE (mem s') (brk s - 8) = adjusted_size w
      \<and> \<not> GET_FREE_BIT (mem s') (brk s - 8)
      \<and> brk s' = brk s + (adjusted_size w + 16)"
proof -
  define B where "B = brk s"
  define N where "N = adjusted_size w"
  obtain q where q: "N = 16 * q"
    using adjusted_size_mult16 [of w] by (auto simp add: N_def)
  have n16: "16 \<le> unat N"
    using adjusted_size_mult [of w] by (auto simp add: N_def)
  have "unat (brk_max s) < 2 ^ 64"
    using unsigned_less [of "brk_max s", where ?'a = nat] by simp
  with grant b8 have nmax: "unat N \<le> 2 ^ 64 - 25"
    by (simp add: N_def)
  note gs = get_set_same(1-3) [where q = q, folded q] get_set_same(4-6)
  note fo = far_offsets [OF n16 nmax, of B]
  note fo' = fo [THEN far_sym]
  have u16: "unat (N + 16) = unat N + 16"
    using nmax by (simp add: unat_word_ariths)
  have B0: "B \<noteq> 0" using b8 by (auto simp add: B_def)
  define M1 where "M1 = SET_VALUE (mem s) (B - 8) N True False"
  define M2 where "M2 = SET_VALUE M1 (B + N) N True False"
  define M3 where "M3 = SET_VALUE M2 (B + N + 8) 0 False True"
  define M5 where "M5 = store64 (store64 M3 B 0) (B + 8) 0"
  define b where "b = Segregated_get_bucket N"
  define s2 where "s2 = s\<lparr>mem := M5, freelists := (freelists s)(b := B), brk := B + (N + 16)\<rparr>"
  have size1: "GET_SIZE M1 (B - 8) = N"
    by (simp add: M1_def gs)
  have size2: "GET_SIZE M2 (B - 8) = N"
    by (simp add: M2_def get_set_far fo size1)
  have size3: "GET_SIZE M3 (B - 8) = N"
    by (simp add: M3_def get_set_far fo size2)
  have size5: "GET_SIZE M5 (B - 8) = N"
    by (simp add: M5_def get_set_far fo size3)
  have hdr5: "GET_FREE_BIT M5 (B - 8)" "\<not> GET_PREV_BLOCK_FREE_BIT M5 (B - 8)"
    by (simp_all add: M5_def M3_def M2_def M1_def get_set_far fo gs)
  have epi5: "\<not> GET_FREE_BIT M5 (B + N + 8)" "GET_SIZE M5 (B + N + 8) = 0"
    by (simp_all add: M5_def M3_def get_set_far fo' gs)
  have ftr5: "GET_SIZE M5 (B + N) = N" "\<not> GET_PREV_BLOCK_FREE_BIT M5 (B + N)"
    by (simp_all add: M5_def M3_def M2_def get_set_far fo fo' gs)
  have links5: "load64 M5 B = 0" "load64 M5 (B + 8) = 0"
    by (simp_all add: M5_def load64_store64_same load64_store64_far fo fo')
  have grant': "unat (brk s) + unat (adjusted_size w + Footer_size + Header_size) \<le> unat (brk_max s)"
    using grant u16 by (simp add: N_def Footer_size_def Header_size_def add.assoc)
  have ins: "Segregated_insert_header (B - 8) (s\<lparr>brk := B + (N + 16), mem := M3\<rparr>) = s2"
    using fl by (simp add: Segregated_insert_header_def LinkedList_insert_at_front_def
        Header_get_list_def Header_get_payload_def Header_size_def size3 s2_def M5_def b_def)
  have nh: "Header_get_next_header (mem s2) (B - 8) = B + N + 8"
    by (simp add: nav_defs s2_def size5)
  have co: "coalesce (B - 8) s2 = s2"
    using epi5 hdr5 by (simp add: coalesce_def nh coalesce_left_def Let_def) (simp add: s2_def)
  have ext0: "extend_memory w s = (True, coalesce (B - 8)
      (Segregated_insert_header (B - 8) (s\<lparr>brk := B + (N + 16), mem := M3\<rparr>)))"
    unfolding extend_memory_eq
    using grant' ep
    apply (simp add: Let_def nav_defs get_zero_word N_def [symmetric] B_def [symmetric]
        M1_def [symmetric] size1 M2_def [symmetric] size2 M3_def)
    apply (simp add: ac_simps)
    done
  have ext: "extend_memory w s = (True, s2)"
    by (simp only: ext0 ins co)
  have b14: "b \<le> 14" by (simp add: b_def bucket_le_14)
  have mem2: "mem s2 = M5" by (simp add: s2_def)
  have fb: "freelists s2 b = B" by (simp add: s2_def)
  have scan: "Segregated_find_free_block w s2 =
     (case find (\<lambda>i. freelists s2 i \<noteq> 0) [b..<14] of
        Some i \<Rightarrow> Some (Payload_get_header (freelists s2 i))
      | None \<Rightarrow> find_free_block_explicit_list_firstfit (mem s2) (freelists s2 14) w)"
    unfolding b_def N_def by (rule find_free_block_scan)
  have find2: "Segregated_find_free_block w s2 = Some (B - 8)"
  proof (cases "b < 14")
    case True
    then have "[b..<14] = b # [Suc b..<14]" by (simp add: upt_rec)
    then have "find (\<lambda>i. freelists s2 i \<noteq> 0) [b..<14] = Some b"
      using B0 fb by simp
    then show ?thesis
      by (simp add: scan fb Payload_get_header_def Header_size_def)
  next
    case False
    with b14 have b: "b = 14" by simp
    have wmax: "unat w \<le> 2 ^ 64 - 8"
    proof (rule ccontr)
      assume "\<not> unat w \<le> 2 ^ 64 - 8"
      then have "N = 16" by (simp add: N_def adjusted_size_big)
      then show False using b by (simp add: b_def Segregated_get_bucket_eq)
    qed
    have fit: "w \<le> N + 8"
    proof -
      have "1 \<le> unat w" using w0 by (simp add: unat_gt_0 Suc_le_eq)
      then have "unat N = need_spec (unat w)"
        using wmax by (simp add: N_def adjusted_size_in_range)
      moreover have "unat w - 8 \<le> align_up (unat w - 8) 16"
        by (simp add: align_up_def)
      ultimately have "unat w \<le> unat N + 8"
        by (simp add: need_spec_def)
      moreover have "unat (N + 8) = unat N + 8"
        using nmax by (simp add: unat_word_ariths)
      ultimately show ?thesis by (simp add: word_le_nat_alt)
    qed
    have "find_free_block_explicit_list_firstfit M5 B w = Some (B - 8)"
      using B0 fit
      by (subst find_free_block_explicit_list_firstfit.simps)
        (simp add: Payload_get_header_def Header_size_def Footer_size_def size5)
    then show ?thesis
      using fb by (simp add: scan b mem2)
  qed
  define M8 where "M8 = SET_VALUE (SET_VALUE (SET_VALUE M5 (B - 8) N False False)
      (B + N + 8) 0 False False) (B + N) N False False"
  define s3 where "s3 = s2\<lparr>mem := M8, freelists := (freelists s2)(b := 0)\<rparr>"
  have rem: "Segregated_remove_header (B - 8) s2 = s2\<lparr>freelists := (freelists s2)(b := 0)\<rparr>"
    using links5
    by (simp add: Segregated_remove_header_def LinkedList_remove_def Header_get_list_def
        Header_get_payload_def Header_size_def Let_def s2_def size5 b_def)
  define A1 where "A1 = SET_VALUE M5 (B - 8) N False False"
  define A2 where "A2 = SET_VALUE A1 (B + N + 8) 0 False False"
  have a1: "SET_FREE_BIT M5 (B - 8) False = A1"
    using hdr5 by (simp add: SET_FREE_BIT_def size5 A1_def)
  have a2: "SET_PREV_BLOCK_FREE_BIT A1 (B + N + 8) False = A2"
    using epi5 by (simp add: SET_PREV_BLOCK_FREE_BIT_def A1_def A2_def get_set_far fo')
  have a3: "GET_SIZE A2 (B - 8) = N"
    by (simp add: A2_def A1_def get_set_far fo gs)
  have a4: "SET_FREE_BIT A2 (B + N) False = M8"
    using ftr5 by (simp add: SET_FREE_BIT_def A2_def A1_def M8_def get_set_far fo fo')
  have alloc: "allocate (B - 8) w s2 = (B, s3)"
    unfolding allocate_def
    apply (simp add: Let_def N_def [symmetric] mem2 size5 Block_min_size_eq rem nav_defs
        a1 a2 a3)
    apply (simp add: ac_simps a4 [simplified ac_simps] s3_def)
    done
  have hdr8: "GET_SIZE M8 (B - 8) = N" "\<not> GET_FREE_BIT M8 (B - 8)"
    by (simp_all add: M8_def get_set_far fo gs)
  have h0: "B - 8 \<noteq> 0"
    using b8 by (auto simp add: B_def)
  have "mm_malloc w s = Some (B, s3)"
    using malloc_extend [OF w0 find_on_empty_index [OF fl] ext]
      malloc_fit [OF w0 find2 h0] alloc by simp
  then show ?thesis
    using hdr8 by (auto simp add: B_def N_def s3_def s2_def)
qed

lemma init_probe_result:
  "init_probe s = Some (start, s1) \<Longrightarrow>
     s1 = s\<lparr>brk := start + 1\<rparr> \<and> unat start + 1 \<le> unat (brk_max s)"
proof (induction s rule: init_probe.induct)
  case (1 s)
  from "1.prems" have g: "unat (brk s) + 1 \<le> unat (brk_max s)"
    by (subst (asm) init_probe.simps) (auto simp add: mm_sbrk_def split: if_splits)
  then have sb: "mm_sbrk s 1 = Some (brk s, s\<lparr>brk := brk s + 1\<rparr>)"
    by (simp add: mm_sbrk_def)
  show ?case
  proof (cases "aligned (brk s)")
    case True
    with "1.prems" sb g show ?thesis
      by (subst (asm) init_probe.simps) auto
  next
    case False
    with "1.prems" sb have "init_probe (s\<lparr>brk := brk s + 1\<rparr>) = Some (start, s1)"
      by (subst (asm) init_probe.simps) simp
    with "1.IH" [OF sb refl False] show ?thesis by simp
  qed
qed

lemma init_fresh:
  assumes "mm_init s0 = Some s"
  shows "(\<forall>i. freelists s i = 0) \<and> load64 (mem s) (brk s - 8) = 0 \<and> 16 \<le> unat (brk s)"
proof -
  obtain start s1 where p: "init_probe s0 = Some (start, s1)"
  proof (cases "init_probe s0")
    case None
    then have "mm_init s0 = None" by (simp only: mm_init_def option.case)
    with assms show ?thesis by simp
  next
    case (Some a)
    then show ?thesis using that by (cases a) auto
  qed
  from init_probe_result [OF p]
  have s1: "s1 = s0\<lparr>brk := start + 1\<rparr>" and g1: "unat start + 1 \<le> unat (brk_max s0)"
    by simp_all
  have lt: "unat (brk_max s0) < 2 ^ 64"
    using unsigned_less [of "brk_max s0", where ?'a = nat] by simp
  have u1: "unat (start + 1) = unat start + 1"
    using g1 lt by (simp add: unat_word_ariths)
  have c31: "8 + Header_size + Footer_size + Header_size - 1 = 31"
    by (simp add: Header_size_def Footer_size_def)
  have g2: "unat (start + 1) + 31 \<le> unat (brk_max s0)"
  proof (rule ccontr)
    assume "\<not> ?thesis"
    then have "mm_sbrk s1 31 = None" by (simp add: mm_sbrk_def s1)
    then have "mm_init s0 = None"
      by (simp only: mm_init_def p option.case prod.case c31)
    with assms show False by simp
  qed
  then have sb: "mm_sbrk s1 31 = Some (start + 1, s0\<lparr>brk := start + 32\<rparr>)"
    by (simp add: mm_sbrk_def s1)
  have u32: "unat (start + 32) = unat start + 32"
    using g2 u1 lt by (simp add: unat_word_ariths)
  define m1 where "m1 = SET_VALUE (mem s0) (start + 8) 0 False False"
  define m2 where "m2 = SET_VALUE m1 (start + 16) 0 False False"
  define m3 where "m3 = SET_VALUE m2 (start + 24) 0 False False"
  have "far (start + 8) (start + 8 + 8)"
    by (rule far_diff) simp_all
  then have f: "far (start + 8) (start + 16)"
    by (simp add: add.assoc)
  have z1: "GET_SIZE m1 (start + 8) = 0"
    by (simp add: m1_def get_set_same)
  have z2: "GET_SIZE m2 (start + 8) = 0"
    by (simp add: m2_def get_set_far [OF f] z1)
  have ft: "Header_get_footer m1 (start + 8) = start + 16"
    by (simp add: nav_defs z1 z1 [simplified add.commute [of start]])
  have nh: "Header_get_next_header m2 (start + 8) = start + 24"
    by (simp add: nav_defs z2 z2 [simplified add.commute [of start]])
  have "mm_init s0 = Some (s0\<lparr>brk := start + 32, mem := m3, heap := start + 8,
      freelists := (\<lambda>i. 0)\<rparr>)"
    unfolding mm_init_def p option.case prod.case c31 sb Let_def
    by (simp add: m1_def [symmetric] ft m2_def [symmetric] nh m3_def [symmetric])
  with assms have s: "s = s0\<lparr>brk := start + 32, mem := m3, heap := start + 8,
      freelists := (\<lambda>i. 0)\<rparr>" by simp
  have "load64 m3 (start + 24) = 0"
    by (simp add: m3_def SET_VALUE_def load64_store64_same tag_word_def)
  then show ?thesis
    using u32 by (simp add: s) (simp add: add.commute)
qed


section \<open>Zeroed allocation\<close>

lemma memset_below:
  assumes "unat w \<le> 2 ^ 64 - 8"
  shows "load64 (memset m B c w) (B - 8) = load64 m (B - 8)"
proof -
  have nl: "\<not> d < w" if "2 ^ 64 - 8 \<le> unat d" for d :: "64 word"
    using that assms by (simp add: word_less_nat_alt)
  have "\<not> (- 8 :: 64 word) < w" "\<not> (- 7 :: 64 word) < w" "\<not> (- 6 :: 64 word) < w"
    "\<not> (- 5 :: 64 word) < w" "\<not> (- 4 :: 64 word) < w" "\<not> (- 3 :: 64 word) < w"
    "\<not> (- 2 :: 64 word) < w" "\<not> (- 1 :: 64 word) < w"
    by (rule nl, simp add: unsigned_minus_1_eq_mask mask_eq_exp_minus_1)+
  then show ?thesis
    by (simp add: load64_def memset_def)
qed

text \<open>
  Claim C10, as stated, says that for every \<open>k\<close>, \<open>n\<close> whose product overflows 64 bits
  \<^verbatim>\<open>calloc\<close> can return a non-null pointer. For \<open>k = n = 2^32\<close> the product is
  \<open>2^64\<close>, the wrapped size is 0, and \<^verbatim>\<open>calloc\<close> returns \<^verbatim>\<open>NULL\<close> in every state.
\<close>

theorem calloc_overflow_to_zero_counterexample:
  "2 ^ 64 \<le> unat (4294967296 :: 64 word) * unat (4294967296 :: 64 word)
   \<and> \<not> (\<exists>s p s'. mm_calloc 4294967296 4294967296 s = Some (p, s') \<and> p \<noteq> 0)"
  by (simp add: mm_calloc_def mm_malloc.simps)

text \<open>
  Claim C10, amended. \<^verbatim>\<open>calloc(k, n)\<close> is \<^verbatim>\<open>malloc\<close> of the wrapped product
  \<open>k * n mod 2^64\<close> followed, on success, by zeroing that many bytes from the
  returned pointer. When the wrapped product is 0 it returns \<^verbatim>\<open>NULL\<close> and changes
  nothing. For every \<open>k\<close> and \<open>n\<close> whose product overflows 64 bits with a remainder
  from 1 to \<open>2^64 - 8\<close>, on every freshly initialised heap whose break may grow by
  the effective payload of the remainder plus 16 bytes, it returns the old break, a
  non-null pointer to an allocated block whose capacity, payload plus 8, is less than
  \<open>k * n\<close>, with the remainder's bytes zeroed.
\<close>

theorem calloc_behaviour:
  "mm_calloc k n s =
     (case mm_malloc (n * k) s of
        None \<Rightarrow> None
      | Some (p, s1) \<Rightarrow>
          Some (p, if p = 0 then s1
                   else s1\<lparr>mem := (\<lambda>x. if x - p < n * k then 0 else mem s1 x)\<rparr>))
   \<and> unat (n * k) = (unat k * unat n) mod 2 ^ 64
   \<and> (n * k = 0 \<longrightarrow> mm_calloc k n s = Some (0, s))
   \<and> (2 ^ 64 \<le> unat k * unat n \<and> n * k \<noteq> 0 \<and> unat (n * k) \<le> 2 ^ 64 - 8
        \<and> mm_init s0 = Some s
        \<and> unat (brk s) + unat (adjusted_size (n * k)) + 16 \<le> unat (brk_max s) \<longrightarrow>
      (\<exists>s'. mm_calloc k n s = Some (brk s, s') \<and> brk s \<noteq> 0
          \<and> GET_SIZE (mem s') (Payload_get_header (brk s)) = adjusted_size (n * k)
          \<and> \<not> GET_FREE_BIT (mem s') (Payload_get_header (brk s))
          \<and> (\<forall>x. x - brk s < n * k \<longrightarrow> mem s' x = 0)
          \<and> unat (adjusted_size (n * k)) + 8 < unat k * unat n))"
proof (intro conjI impI)
  show "mm_calloc k n s =
     (case mm_malloc (n * k) s of
        None \<Rightarrow> None
      | Some (p, s1) \<Rightarrow>
          Some (p, if p = 0 then s1
                   else s1\<lparr>mem := (\<lambda>x. if x - p < n * k then 0 else mem s1 x)\<rparr>))"
    by (auto simp add: mm_calloc_def Let_def memset_def split: option.split)
  show "unat (n * k) = (unat k * unat n) mod 2 ^ 64"
    by (simp add: unat_word_ariths mult.commute)
  show "mm_calloc k n s = Some (0, s)" if "n * k = 0"
    using that by (simp add: mm_calloc_def mm_malloc.simps)
  assume a: "2 ^ 64 \<le> unat k * unat n \<and> n * k \<noteq> 0 \<and> unat (n * k) \<le> 2 ^ 64 - 8
        \<and> mm_init s0 = Some s
        \<and> unat (brk s) + unat (adjusted_size (n * k)) + 16 \<le> unat (brk_max s)"
  then have ov: "2 ^ 64 \<le> unat k * unat n" and nz: "n * k \<noteq> 0"
    and wmax: "unat (n * k) \<le> 2 ^ 64 - 8" and init: "mm_init s0 = Some s"
    and grant: "unat (brk s) + unat (adjusted_size (n * k)) + 16 \<le> unat (brk_max s)"
    by simp_all
  from init_fresh [OF init]
  have fl: "\<forall>i. freelists s i = 0" and ep: "load64 (mem s) (brk s - 8) = 0"
    and b8: "16 \<le> unat (brk s)" by simp_all
  from malloc_on_fresh_heap [OF fl ep b8 grant nz]
  obtain s1 where m: "mm_malloc (n * k) s = Some (brk s, s1)"
    and sz: "GET_SIZE (mem s1) (brk s - 8) = adjusted_size (n * k)"
    and fr: "\<not> GET_FREE_BIT (mem s1) (brk s - 8)"
    by blast
  have b0: "brk s \<noteq> 0" using b8 by auto
  define s' where "s' = s1\<lparr>mem := memset (mem s1) (brk s) 0 (n * k)\<rparr>"
  have c: "mm_calloc k n s = Some (brk s, s')"
    using b0 by (simp add: mm_calloc_def m s'_def)
  have ld: "load64 (mem s') (brk s - 8) = load64 (mem s1) (brk s - 8)"
    by (simp add: s'_def memset_below [OF wmax])
  have "unat (brk_max s) < 2 ^ 64"
    using unsigned_less [of "brk_max s", where ?'a = nat] by simp
  with grant ov have small: "unat (adjusted_size (n * k)) + 8 < unat k * unat n"
    by simp
  have z: "\<forall>x. x - brk s < n * k \<longrightarrow> mem s' x = 0"
    by (simp add: s'_def memset_def)
  show "\<exists>s'. mm_calloc k n s = Some (brk s, s') \<and> brk s \<noteq> 0
          \<and> GET_SIZE (mem s') (Payload_get_header (brk s)) = adjusted_size (n * k)
          \<and> \<not> GET_FREE_BIT (mem s') (Payload_get_header (brk s))
          \<and> (\<forall>x. x - brk s < n * k \<longrightarrow> mem s' x = 0)
          \<and> unat (adjusted_size (n * k)) + 8 < unat k * unat n"
    using c b0 sz fr ld small z
    by (intro exI [of _ s'])
      (simp add: GET_SIZE_def GET_FREE_BIT_def Payload_get_header_def Header_size_def)
qed

theorem calloc_behaviour_witness:
  "mm_init fresh_heap = Some heap1
   \<and> 2 ^ 64 \<le> unat (1152921504606846977 :: 64 word) * unat (16 :: 64 word)
   \<and> (\<exists>s'. mm_calloc 1152921504606846977 16 heap1 = Some (4128, s')
         \<and> GET_SIZE (mem s') (Payload_get_header 4128) = 16
         \<and> (\<forall>x. x - 4128 < 16 \<longrightarrow> mem s' x = 0))
   \<and> (4294967296 :: 64 word) * 4294967296 = 0
   \<and> mm_calloc 4294967296 4294967296 heap1 = Some (0, heap1)"
proof -
  have e: "(16 :: 64 word) * 1152921504606846977 = 16" by simp
  have e0: "(4294967296 :: 64 word) * 4294967296 = 0" by simp
  have a16: "adjusted_size 16 = 16"
    by (simp add: adjusted_size_def align_16 Payload_min_size_eq)
  have b: "brk heap1 = 4128" "brk_max heap1 = 4448" by (simp_all add: heap1_def)
  have "2 ^ 64 \<le> unat (1152921504606846977 :: 64 word) * unat (16 :: 64 word)
        \<and> (16 :: 64 word) * 1152921504606846977 \<noteq> 0
        \<and> unat ((16 :: 64 word) * 1152921504606846977) \<le> 2 ^ 64 - 8
        \<and> mm_init fresh_heap = Some heap1
        \<and> unat (brk heap1) + unat (adjusted_size (16 * 1152921504606846977)) + 16
            \<le> unat (brk_max heap1) \<longrightarrow>
      (\<exists>s'. mm_calloc 1152921504606846977 16 heap1 = Some (brk heap1, s') \<and> brk heap1 \<noteq> 0
          \<and> GET_SIZE (mem s') (Payload_get_header (brk heap1))
              = adjusted_size (16 * 1152921504606846977)
          \<and> \<not> GET_FREE_BIT (mem s') (Payload_get_header (brk heap1))
          \<and> (\<forall>x. x - brk heap1 < 16 * 1152921504606846977 \<longrightarrow> mem s' x = 0)
          \<and> unat (adjusted_size (16 * 1152921504606846977)) + 8
               < unat (1152921504606846977 :: 64 word) * unat (16 :: 64 word))"
    using calloc_behaviour [of 1152921504606846977 16 heap1 fresh_heap] by (elim conjE)
  then have "\<exists>s'. mm_calloc 1152921504606846977 16 heap1 = Some (4128, s')
         \<and> GET_SIZE (mem s') (Payload_get_header 4128) = 16
         \<and> (\<forall>x. x - 4128 < 16 \<longrightarrow> mem s' x = 0)"
    unfolding e using heap1_reached by (simp add: a16 b) blast
  moreover have "(4294967296 :: 64 word) * 4294967296 = 0 \<longrightarrow>
        mm_calloc 4294967296 4294967296 heap1 = Some (0, heap1)"
    using calloc_behaviour [of 4294967296 4294967296 heap1 fresh_heap] by (elim conjE)
  ultimately show ?thesis
    using heap1_reached e0 by simp
qed


end
